theory Spec2Isabelle
  imports Complex_Main "HOL-Library.Multiset"
begin

section \<open>Numbers\<close>

text \<open>
  A JavaScript \<^verbatim>\<open>number\<close> is an IEEE-754 binary64 value: a finite value, an
  infinity or NaN. A finite value is given by the real number it denotes; the sign of a
  zero is not kept (addition, division by a positive count and comparison agree on the
  two zeros up to that sign). The arithmetic of the code rounds every sum and every
  quotient to the nearest binary64 value, ties to the even significand.
\<close>

datatype number = Finite real | PosInfinity | NegInfinity | NaN

text \<open>Rounding to the nearest integer, ties to even.\<close>

definition rne :: "real \<Rightarrow> int" where
  "rne y =
     (let f = \<lfloor>y\<rfloor>; r = y - of_int f
      in if r < 1 / 2 then f else if 1 / 2 < r then f + 1 else if even f then f else f + 1)"

text \<open>
  The exponent of the binade of a non-zero real, not below the least normal exponent
  (below it the values are subnormal and share the spacing \<open>2 powi (- 1074)\<close>), and
  the spacing of the binary64 values there: the significand has 53 bits.
\<close>

definition exponent :: "real \<Rightarrow> int" where
  "exponent x = max \<lfloor>log 2 \<bar>x\<bar>\<rfloor> (- 1022)"

definition ulp :: "real \<Rightarrow> real" where
  "ulp x = 2 powi (exponent x - 52)"

text \<open>Rounding to nearest, ties to even, with the exponent unbounded above.\<close>

definition roundReal :: "real \<Rightarrow> real" where
  "roundReal x = (if x = 0 then 0 else ulp x * of_int (rne (x / ulp x)))"

text \<open>
  The binary64 result of an exact real result: a rounded value of magnitude
  \<open>2 ^ 1024\<close> or more overflows to the infinity of its sign. A decimal literal of the
  source denotes the rounding of its decimal value.
\<close>

definition overflowBound :: real where
  "overflowBound = 2 ^ 1024"

definition round64 :: "real \<Rightarrow> number" where
  "round64 x =
     (let v = roundReal x
      in if overflowBound \<le> \<bar>v\<bar> then (if 0 < v then PosInfinity else NegInfinity)
         else Finite v)"

text \<open>The real is a binary64 value.\<close>

definition representable :: "real \<Rightarrow> bool" where
  "representable v = (round64 v = Finite v)"

text \<open>\<^verbatim>\<open>a + b\<close> on numbers.\<close>

fun fadd :: "number \<Rightarrow> number \<Rightarrow> number" where
  "fadd NaN b = NaN"
| "fadd a NaN = NaN"
| "fadd PosInfinity NegInfinity = NaN"
| "fadd NegInfinity PosInfinity = NaN"
| "fadd PosInfinity b = PosInfinity"
| "fadd a PosInfinity = PosInfinity"
| "fadd NegInfinity b = NegInfinity"
| "fadd a NegInfinity = NegInfinity"
| "fadd (Finite a) (Finite b) = round64 (a + b)"

text \<open>
  \<^verbatim>\<open>a / xs.length\<close>: the divisor is the length of an array, a non-negative integer
  below \<open>2 ^ 32\<close>, which binary64 represents exactly. Division of a finite non-zero value
  by zero gives the infinity of its sign, of zero by zero NaN.
\<close>

fun fdiv :: "number \<Rightarrow> nat \<Rightarrow> number" where
  "fdiv NaN n = NaN"
| "fdiv PosInfinity n = PosInfinity"
| "fdiv NegInfinity n = NegInfinity"
| "fdiv (Finite a) n =
     (if n = 0 then (if a = 0 then NaN else if 0 < a then PosInfinity else NegInfinity)
      else round64 (a / real n))"

text \<open>\<^verbatim>\<open>a <= b\<close> on numbers: false when either is NaN.\<close>

fun le64 :: "number \<Rightarrow> number \<Rightarrow> bool" where
  "le64 NaN b = False"
| "le64 a NaN = False"
| "le64 NegInfinity b = True"
| "le64 a PosInfinity = True"
| "le64 (Finite a) (Finite b) = (a \<le> b)"
| "le64 PosInfinity b = False"
| "le64 a NegInfinity = False"

section \<open>Data model\<close>

text \<open>
  The interfaces of \<^verbatim>\<open>types/index.d.ts\<close>. A \<^verbatim>\<open>bigint\<close> is an \<^typ>\<open>int\<close>, a
  \<^verbatim>\<open>string\<close> is a \<^typ>\<open>string\<close> (only equality and concatenation of strings are used
  by the code below), a \<^verbatim>\<open>number\<close> is a \<^typ>\<open>number\<close>.
\<close>

record Attestation =
  fromAgent :: int
  toAgent :: int
  namespace :: string
  tag :: string
  score :: number
  interactionId :: string
  comment :: string
  timestamp :: int

text \<open>
  \<^verbatim>\<open>WeightedReputationQuery\<close>: every field is optional. The fields \<^verbatim>\<open>namespace\<close> and
  \<^verbatim>\<open>tag\<close> are named \<open>queryNamespace\<close> and \<open>queryTag\<close> here, since the attestation
  record already has fields of these names.
\<close>

record WeightedReputationQuery =
  viewerAgentId :: "int option"
  queryNamespace :: "string option"
  queryTag :: "string option"

datatype RiskLevel = Low | Medium | High | Critical

text \<open>
  \<^verbatim>\<open>WeightedReputation\<close>. The field \<^verbatim>\<open>byCategory\<close> is a JavaScript object with string
  keys; its own properties are enumerated in insertion order (no key is an array index,
  as every key holds a colon), so it is an association list in insertion order. Read as
  a mapping it is \<open>map_of (byCategory r)\<close>.
\<close>

record WeightedReputation =
  overall :: number
  byCategory :: "(string \<times> number) list"
  decayFactor :: number
  riskLevel :: RiskLevel
  suspicionScore :: number
  totalAttestations :: nat

section \<open>The computation of \<^verbatim>\<open>getWeightedReputation\<close>\<close>

subsection \<open>Filtering\<close>

text \<open>
  \<^verbatim>\<open>query?.namespace\<close>: \<^verbatim>\<open>undefined\<close> when the query or the field is absent.
\<close>

definition optField :: "('q \<Rightarrow> 'v option) \<Rightarrow> 'q option \<Rightarrow> 'v option" where
  "optField f query = (case query of None \<Rightarrow> None | Some q \<Rightarrow> f q)"

text \<open>
  \<^verbatim>\<open>if (query?.namespace)\<close> tests truthiness: \<^verbatim>\<open>undefined\<close> and the empty string are
  falsy, every other string is truthy.
\<close>

definition truthy :: "string option \<Rightarrow> bool" where
  "truthy v = (case v of None \<Rightarrow> False | Some s \<Rightarrow> s \<noteq> [])"

text \<open>
  \<^verbatim>\<open>
  let filteredAttestations = attestations;
  if (query?.namespace) {
      filteredAttestations = filteredAttestations.filter((a) => a.namespace === query.namespace);
  }
  if (query?.tag) {
      filteredAttestations = filteredAttestations.filter((a) => a.tag === query.tag);
  }
  \<close>
\<close>

definition filterAttestations ::
  "WeightedReputationQuery option \<Rightarrow> Attestation list \<Rightarrow> Attestation list" where
  "filterAttestations query attestations =
     (let filtered0 = attestations;
          filtered1 =
            (if truthy (optField queryNamespace query)
             then filter (\<lambda>a. Some (namespace a) = optField queryNamespace query) filtered0
             else filtered0);
          filtered2 =
            (if truthy (optField queryTag query)
             then filter (\<lambda>a. Some (tag a) = optField queryTag query) filtered1
             else filtered1)
      in filtered2)"

subsection \<open>Grouping\<close>

text \<open>The template literal \<^verbatim>\<open>`${att.namespace}:${att.tag}`\<close>.\<close>

definition categoryKey :: "Attestation \<Rightarrow> string" where
  "categoryKey att = namespace att @ '':'' @ tag att"

text \<open>
  One iteration of the grouping loop on the object \<^verbatim>\<open>byCategory\<close>:
  \<^verbatim>\<open>
  if (!byCategory[key]) byCategory[key] = [];
  byCategory[key].push(att.score);
  \<close>
  An array is truthy, so the test fails exactly when the key is absent (no inherited
  property name holds a colon). A new key goes to the end of the enumeration order, a
  present key keeps its place.
\<close>

fun pushScore ::
  "string \<Rightarrow> number \<Rightarrow> (string \<times> number list) list \<Rightarrow> (string \<times> number list) list" where
  "pushScore key s [] = [(key, [s])]"
| "pushScore key s ((k, scores) # rest) =
     (if k = key then (k, scores @ [s]) # rest else (k, scores) # pushScore key s rest)"

definition groupByCategory :: "Attestation list \<Rightarrow> (string \<times> number list) list" where
  "groupByCategory filteredAttestations =
     foldl (\<lambda>byCat att. pushScore (categoryKey att) (score att) byCat) [] filteredAttestations"

subsection \<open>Averages\<close>

text \<open>
  \<^verbatim>\<open>scores.reduce((a, b) => a + b, 0) / scores.length\<close>: the sum from the left,
  starting at 0, every addition rounded, then one rounded division.
\<close>

definition average :: "number list \<Rightarrow> number" where
  "average scores = fdiv (foldl (\<lambda>a b. fadd a b) (Finite 0) scores) (length scores)"

text \<open>
  \<^verbatim>\<open>
  for (const [key, scores] of Object.entries(byCategory)) {
      categoryScores[key] = scores.reduce((a, b) => a + b, 0) / scores.length;
  }
  \<close>
\<close>

definition categoryScores :: "(string \<times> number list) list \<Rightarrow> (string \<times> number) list" where
  "categoryScores byCat = map (\<lambda>(key, scores). (key, average scores)) byCat"

text \<open>
  \<^verbatim>\<open>
  const allScores = Object.values(categoryScores);
  const overall = allScores.length > 0 ? allScores.reduce((a, b) => a + b, 0) / allScores.length : 0;
  \<close>
\<close>

definition overallOf :: "(string \<times> number) list \<Rightarrow> number" where
  "overallOf catScores =
     (let allScores = map snd catScores
      in if length allScores > 0
         then fdiv (foldl (\<lambda>a b. fadd a b) (Finite 0) allScores) (length allScores)
         else Finite 0)"

subsection \<open>Risk level\<close>

definition riskLevelOf :: "nat \<Rightarrow> RiskLevel" where
  "riskLevelOf n =
     (if n > 20 then Low
      else if n > 10 then Medium
      else if n > 5 then High
      else Critical)"

subsection \<open>The report\<close>

text \<open>
  The body of \<^verbatim>\<open>getWeightedReputation\<close> after the attestations have been fetched:
  from the filter to the returned object. The literal \<^verbatim>\<open>0.98\<close> is the binary64 value
  nearest to 98 / 100.
\<close>

definition weightedReputation ::
  "WeightedReputationQuery option \<Rightarrow> Attestation list \<Rightarrow> WeightedReputation" where
  "weightedReputation query attestations =
     (let filteredAttestations = filterAttestations query attestations;
          byCat = groupByCategory filteredAttestations;
          catScores = categoryScores byCat
      in \<lparr> overall = overallOf catScores,
           byCategory = catScores,
           decayFactor = round64 (98 / 100),
           riskLevel = riskLevelOf (length attestations),
           suspicionScore = Finite 0,
           totalAttestations = length attestations \<rparr>)"

subsection \<open>Fetching\<close>

text \<open>
  The reads of the trust-graph contract. A read is a promise: it resolves to a value
  or rejects. Which of several rejections \<^verbatim>\<open>Promise.all\<close> reports depends on timing,
  so the error carries no data.
\<close>

datatype error = Rejected

record TrustGraph =
  contractGetAttestations :: "int \<Rightarrow> error + string list"
  contractGetAttestation :: "string \<Rightarrow> error + Attestation"

record AgentTrustSDK =
  trustGraph :: TrustGraph

definition getAttestations :: "AgentTrustSDK \<Rightarrow> int \<Rightarrow> error + string list" where
  "getAttestations sdk agentId = contractGetAttestations (trustGraph sdk) agentId"

definition getAttestation :: "AgentTrustSDK \<Rightarrow> string \<Rightarrow> error + Attestation" where
  "getAttestation sdk attestationId =
     (case contractGetAttestation (trustGraph sdk) attestationId of
        Inl e \<Rightarrow> Inl e
      | Inr attestation \<Rightarrow>
          Inr \<lparr> fromAgent = fromAgent attestation,
                toAgent = toAgent attestation,
                namespace = namespace attestation,
                tag = tag attestation,
                score = score attestation,
                interactionId = interactionId attestation,
                comment = comment attestation,
                timestamp = timestamp attestation \<rparr>)"

text \<open>\<^verbatim>\<open>Promise.all\<close>: the values in the order of the promises, or a rejection.\<close>

fun promiseAll :: "(error + 'a) list \<Rightarrow> error + 'a list" where
  "promiseAll [] = Inr []"
| "promiseAll (p # ps) =
     (case p of
        Inl e \<Rightarrow> Inl e
      | Inr v \<Rightarrow> (case promiseAll ps of Inl e \<Rightarrow> Inl e | Inr vs \<Rightarrow> Inr (v # vs)))"

definition fetchAttestations :: "AgentTrustSDK \<Rightarrow> int \<Rightarrow> error + Attestation list" where
  "fetchAttestations sdk agentId =
     (case getAttestations sdk agentId of
        Inl e \<Rightarrow> Inl e
      | Inr attestationIds \<Rightarrow> promiseAll (map (getAttestation sdk) attestationIds))"

text \<open>
  The method itself, with the SDK object passed in and handed back: the method reads
  \<^verbatim>\<open>this.trustGraph\<close> and assigns to no field.
\<close>

definition getWeightedReputation ::
  "int \<Rightarrow> WeightedReputationQuery option \<Rightarrow> AgentTrustSDK
     \<Rightarrow> (error + WeightedReputation) \<times> AgentTrustSDK" where
  "getWeightedReputation agentId query sdk =
     (case fetchAttestations sdk agentId of
        Inl e \<Rightarrow> (Inl e, sdk)
      | Inr attestations \<Rightarrow> (Inr (weightedReputation query attestations), sdk))"

section \<open>Notions used to state the properties\<close>

text \<open>
  The attestations that the two filter steps keep: the guard of each step is the
  truthiness test of the source, so an absent or empty field of the query removes
  nothing.
\<close>

definition matchesQuery :: "WeightedReputationQuery option \<Rightarrow> Attestation \<Rightarrow> bool" where
  "matchesQuery query a =
     ((if truthy (optField queryNamespace query)
       then Some (namespace a) = optField queryNamespace query else True) \<and>
      (if truthy (optField queryTag query)
       then Some (tag a) = optField queryTag query else True))"

text \<open>The scores, in input order, of the attestations whose key is \<open>key\<close>.\<close>

definition scoresOf :: "string \<Rightarrow> Attestation list \<Rightarrow> number list" where
  "scoresOf key atts = map score (filter (\<lambda>a. categoryKey a = key) atts)"


text \<open>A finite integer of magnitude at most \<open>b\<close>, and the integer of such a number.\<close>

definition integerWithin :: "int \<Rightarrow> number \<Rightarrow> bool" where
  "integerWithin b x =
     (case x of Finite v \<Rightarrow> v = of_int \<lfloor>v\<rfloor> \<and> \<bar>\<lfloor>v\<rfloor>\<bar> \<le> b | _ \<Rightarrow> False)"

definition intOf :: "number \<Rightarrow> int" where
  "intOf x = (case x of Finite v \<Rightarrow> \<lfloor>v\<rfloor> | _ \<Rightarrow> 0)"

text \<open>An attestation given by the three fields the computation reads.\<close>

abbreviation att :: "string \<Rightarrow> string \<Rightarrow> number \<Rightarrow> Attestation" where
  "att ns tg sc \<equiv>
     \<lparr> fromAgent = 0, toAgent = 0, namespace = ns, tag = tg, score = sc,
       interactionId = [], comment = [], timestamp = 0 \<rparr>"

text \<open>The example of the specification: (a, x, 80), (a, x, 100), (a, y, 50).\<close>

abbreviation exampleAttestations :: "Attestation list" where
  "exampleAttestations \<equiv>
     [att ''a'' ''x'' (Finite 80), att ''a'' ''x'' (Finite 100), att ''a'' ''y'' (Finite 50)]"

section \<open>Rounding\<close>

lemma floor_log2_eqI:
  assumes "2 powi k \<le> \<bar>x\<bar>" "\<bar>x\<bar> < 2 powi (k + 1)"
  shows "\<lfloor>log 2 \<bar>x\<bar>\<rfloor> = k"
proof -
  have pos: "0 < \<bar>x\<bar>" using assms(1) by (smt (verit) zero_less_power_int)
  have a: "(2::real) powr (of_int k) = 2 powi k"
    by (rule powr_real_of_int') simp_all
  have "(2::real) powr (of_int (k + 1)) = 2 powi (k + 1)"
    by (rule powr_real_of_int') simp_all
  then have b: "(2::real) powr (of_int k + 1) = 2 powi (k + 1)"
    by simp
  have "2 powr (of_int k) \<le> \<bar>x\<bar> \<and> \<bar>x\<bar> < 2 powr (of_int k + 1)"
    unfolding a b using assms by simp
  then show ?thesis
    using floor_log_eq_powr_iff [OF pos, of 2 k] by simp
qed

lemma roundReal_binade:
  assumes "2 powi k \<le> \<bar>x\<bar>" "\<bar>x\<bar> < 2 powi (k + 1)"
  shows "roundReal x = 2 powi (max k (- 1022) - 52) * of_int (rne (x / 2 powi (max k (- 1022) - 52)))"
proof -
  have "x \<noteq> 0" using assms(1) by (smt (verit) zero_less_power_int abs_zero)
  then show ?thesis
    by (simp add: roundReal_def ulp_def exponent_def floor_log2_eqI [OF assms])
qed

lemma rne_of_int: "rne (of_int n) = n"
  by (simp add: rne_def)

lemma rne_bounds: "\<lfloor>y\<rfloor> \<le> rne y \<and> rne y \<le> \<lfloor>y\<rfloor> + 1"
  by (simp add: rne_def Let_def)

lemma rne_mono:
  assumes "y1 \<le> y2"
  shows "rne y1 \<le> rne y2"
proof (cases "\<lfloor>y1\<rfloor> = \<lfloor>y2\<rfloor>")
  case True
  with assms show ?thesis
    by (auto simp: rne_def Let_def)
next
  case False
  with assms have "\<lfloor>y1\<rfloor> + 1 \<le> \<lfloor>y2\<rfloor>"
    using floor_mono [OF assms] by linarith
  with rne_bounds [of y1] rne_bounds [of y2] show ?thesis
    by linarith
qed

lemma rne_minus: "rne (- y) = - rne y"
proof (cases "y = of_int \<lfloor>y\<rfloor>")
  case True
  then obtain n where "y = of_int n" ..
  then have "rne y = n" "rne (- y) = - n"
    using rne_of_int [of n] rne_of_int [of "- n"] by simp_all
  then show ?thesis by simp
next
  case False
  then have fl: "\<lfloor>- y\<rfloor> = - \<lfloor>y\<rfloor> - 1"
    by (simp add: floor_minus ceiling_altdef)
  have "0 < y - of_int \<lfloor>y\<rfloor>" "y - of_int \<lfloor>y\<rfloor> < 1"
    using False by linarith+
  then show ?thesis
    by (auto simp: rne_def Let_def fl)
qed

lemma ulp_pos: "0 < ulp x"
  by (simp add: ulp_def)

lemma exponent_minus: "exponent (- x) = exponent x"
  by (simp add: exponent_def)

lemma ulp_minus: "ulp (- x) = ulp x"
  by (simp add: ulp_def exponent_minus)

lemma roundReal_minus: "roundReal (- x) = - roundReal x"
  by (simp add: roundReal_def ulp_minus rne_minus)

lemma roundReal_nonneg: "0 \<le> x \<Longrightarrow> 0 \<le> roundReal x"
proof -
  assume "0 \<le> x"
  then have "0 \<le> x / ulp x" using ulp_pos [of x] by simp
  from rne_mono [OF this] have "0 \<le> rne (x / ulp x)"
    using rne_of_int [of 0] by simp
  then show ?thesis
    using ulp_pos [of x] by (simp add: roundReal_def)
qed

lemma floor_log2_bounds:
  assumes "x \<noteq> 0"
  shows "2 powi \<lfloor>log 2 \<bar>x\<bar>\<rfloor> \<le> \<bar>x\<bar> \<and> \<bar>x\<bar> < 2 powi (\<lfloor>log 2 \<bar>x\<bar>\<rfloor> + 1)"
proof -
  let ?k = "\<lfloor>log 2 \<bar>x\<bar>\<rfloor>"
  from assms have pos: "0 < \<bar>x\<bar>" by simp
  have a: "(2::real) powr (of_int ?k) = 2 powi ?k"
    by (rule powr_real_of_int') simp_all
  have "(2::real) powr (of_int (?k + 1)) = 2 powi (?k + 1)"
    by (rule powr_real_of_int') simp_all
  then have b: "(2::real) powr (of_int ?k + 1) = 2 powi (?k + 1)"
    by simp
  from floor_log_eq_powr_iff [OF pos, of 2 ?k]
  have "2 powr (of_int ?k) \<le> \<bar>x\<bar> \<and> \<bar>x\<bar> < 2 powr (of_int ?k + 1)"
    by simp
  then show ?thesis unfolding a b .
qed

lemma exponent_upper: "x \<noteq> 0 \<Longrightarrow> \<bar>x\<bar> < 2 powi (exponent x + 1)"
proof -
  assume "x \<noteq> 0"
  from floor_log2_bounds [OF this] have "\<bar>x\<bar> < 2 powi (\<lfloor>log 2 \<bar>x\<bar>\<rfloor> + 1)" by simp
  also have "\<dots> \<le> 2 powi (exponent x + 1)"
    by (rule power_int_increasing) (simp_all add: exponent_def)
  finally show ?thesis .
qed

lemma exponent_lower:
  "x \<noteq> 0 \<Longrightarrow> - 1022 < exponent x \<Longrightarrow> 2 powi (exponent x) \<le> \<bar>x\<bar>"
  using floor_log2_bounds [of x] by (simp add: exponent_def max_def split: if_splits)

lemma exponent_mono: "0 < x \<Longrightarrow> x \<le> y \<Longrightarrow> exponent x \<le> exponent y"
proof -
  assume "0 < x" "x \<le> y"
  then have "log 2 \<bar>x\<bar> \<le> log 2 \<bar>y\<bar>" by (simp add: log_mono)
  then have "\<lfloor>log 2 \<bar>x\<bar>\<rfloor> \<le> \<lfloor>log 2 \<bar>y\<bar>\<rfloor>" by (rule floor_mono)
  then show ?thesis by (simp add: exponent_def)
qed

lemma ulp_times52: "ulp x * 2 powi 52 = 2 powi (exponent x)"
proof -
  have "(2::real) powi (exponent x - 52) * 2 powi 52 = 2 powi (exponent x - 52 + 52)"
    by (rule power_int_add [symmetric]) simp
  then show ?thesis by (simp only: ulp_def diff_add_cancel)
qed

lemma ulp_times53: "ulp x * 2 powi 53 = 2 powi (exponent x + 1)"
proof -
  have "(2::real) powi (exponent x - 52) * 2 powi 53 = 2 powi (exponent x - 52 + 53)"
    by (rule power_int_add [symmetric]) simp
  moreover have "exponent x - 52 + 53 = exponent x + 1" by simp
  ultimately show ?thesis by (simp only: ulp_def)
qed

lemma of_int_rne_le:
  assumes "y \<le> 2 powi k" "0 \<le> k"
  shows "real_of_int (rne y) \<le> 2 powi k"
proof -
  from assms(2) have eq: "(2::real) powi k = of_int (2 ^ nat k)"
    by (simp add: power_int_def)
  from assms(1) have "rne y \<le> rne (of_int (2 ^ nat k))"
    unfolding eq by (rule rne_mono)
  then have "rne y \<le> 2 ^ nat k" by (simp only: rne_of_int)
  then have "real_of_int (rne y) \<le> of_int (2 ^ nat k)" by (simp only: of_int_le_iff)
  then show ?thesis by (simp only: eq)
qed

lemma of_int_rne_ge:
  assumes "2 powi k \<le> y" "0 \<le> k"
  shows "2 powi k \<le> real_of_int (rne y)"
proof -
  from assms(2) have eq: "(2::real) powi k = of_int (2 ^ nat k)"
    by (simp add: power_int_def)
  from assms(1) have "rne (of_int (2 ^ nat k)) \<le> rne y"
    unfolding eq by (rule rne_mono)
  then have "2 ^ nat k \<le> rne y" by (simp only: rne_of_int)
  then have "real_of_int (2 ^ nat k) \<le> of_int (rne y)" by (simp only: of_int_le_iff)
  then show ?thesis by (simp only: eq)
qed

lemma roundReal_upper:
  assumes "0 < x"
  shows "roundReal x \<le> 2 powi (exponent x + 1)"
proof -
  from assms have "x < 2 powi (exponent x + 1)"
    using exponent_upper [of x] by simp
  then have "x \<le> 2 powi 53 * ulp x" by (simp only: ulp_times53 [symmetric] mult.commute)
  then have "x / ulp x \<le> 2 powi 53"
    using ulp_pos [of x] by (simp only: pos_divide_le_eq)
  then have "real_of_int (rne (x / ulp x)) \<le> 2 powi 53"
    by (rule of_int_rne_le) simp
  then have "ulp x * of_int (rne (x / ulp x)) \<le> ulp x * 2 powi 53"
    using ulp_pos [of x] by (simp only: mult_le_cancel_left_pos)
  then have "ulp x * of_int (rne (x / ulp x)) \<le> 2 powi (exponent x + 1)"
    by (simp only: ulp_times53)
  with assms show ?thesis
    by (simp add: roundReal_def)
qed

lemma roundReal_lower:
  assumes "0 < x" "- 1022 < exponent x"
  shows "2 powi (exponent x) \<le> roundReal x"
proof -
  from assms have "2 powi (exponent x) \<le> x"
    using exponent_lower [of x] by simp
  then have "2 powi 52 * ulp x \<le> x" by (simp only: ulp_times52 [symmetric] mult.commute)
  then have "2 powi 52 \<le> x / ulp x"
    using ulp_pos [of x] by (simp only: pos_le_divide_eq)
  then have "2 powi 52 \<le> real_of_int (rne (x / ulp x))"
    by (rule of_int_rne_ge) simp
  then have "ulp x * 2 powi 52 \<le> ulp x * of_int (rne (x / ulp x))"
    using ulp_pos [of x] by (simp only: mult_le_cancel_left_pos)
  then have "2 powi (exponent x) \<le> ulp x * of_int (rne (x / ulp x))"
    by (simp only: ulp_times52)
  with assms show ?thesis
    by (simp add: roundReal_def)
qed

lemma roundReal_mono_pos:
  assumes "0 < x" "x \<le> y"
  shows "roundReal x \<le> roundReal y"
proof (cases "exponent x = exponent y")
  case True
  then have u: "ulp x = ulp y" by (simp add: ulp_def)
  from assms have "x / ulp y \<le> y / ulp y"
    using ulp_pos [of y] by (simp add: divide_right_mono)
  from rne_mono [OF this] have "ulp y * of_int (rne (x / ulp y)) \<le> ulp y * of_int (rne (y / ulp y))"
    using ulp_pos [of y] by simp
  with assms show ?thesis by (simp add: roundReal_def u)
next
  case False
  with exponent_mono [OF assms] have lt: "exponent x + 1 \<le> exponent y" by simp
  then have "- 1022 < exponent y" by (simp add: exponent_def)
  with assms have "2 powi (exponent y) \<le> roundReal y"
    by (intro roundReal_lower) simp_all
  moreover have "(2::real) powi (exponent x + 1) \<le> 2 powi (exponent y)"
    using lt by (intro power_int_increasing) simp_all
  ultimately show ?thesis
    using roundReal_upper [OF assms(1)] by linarith
qed

lemma roundReal_mono:
  assumes "x \<le> y"
  shows "roundReal x \<le> roundReal y"
proof -
  consider "0 < x" | "x \<le> 0" "0 \<le> y" | "y < 0" by linarith
  then show ?thesis
  proof cases
    case 1
    then show ?thesis using assms by (rule roundReal_mono_pos)
  next
    case 2
    then have "0 \<le> roundReal (- x)" "0 \<le> roundReal y"
      by (simp_all add: roundReal_nonneg)
    then show ?thesis by (simp add: roundReal_minus)
  next
    case 3
    with assms have "0 < - y" "- y \<le> - x" by simp_all
    then have "roundReal (- y) \<le> roundReal (- x)" by (rule roundReal_mono_pos)
    then show ?thesis by (simp add: roundReal_minus)
  qed
qed

lemma roundReal_zero: "roundReal 0 = 0"
  by (simp add: roundReal_def)

lemma roundReal_exact:
  assumes "x \<noteq> 0" and "x / ulp x = of_int m"
  shows "roundReal x = x"
proof -
  have "roundReal x = ulp x * of_int (rne (of_int m))"
    using assms by (simp add: roundReal_def)
  also have "\<dots> = ulp x * (x / ulp x)"
    by (simp only: rne_of_int assms(2))
  also have "\<dots> = x"
    using ulp_pos [of x] by simp
  finally show ?thesis .
qed

lemma roundReal_of_int:
  assumes "\<bar>n\<bar> \<le> 2 ^ 53"
  shows "roundReal (of_int n) = of_int n"
proof (cases "n = 0")
  case True
  then show ?thesis by (simp add: roundReal_zero)
next
  case False
  let ?x = "real_of_int n"
  let ?e = "\<lfloor>log 2 \<bar>?x\<bar>\<rfloor>"
  from False have x0: "?x \<noteq> 0" and x1: "1 \<le> \<bar>?x\<bar>"
    by simp_all
  from assms have x53: "\<bar>?x\<bar> \<le> 2 powi 53"
    by (metis of_int_abs of_int_le_iff of_int_numeral of_int_power power_int_numeral)
  from x1 have "0 \<le> log 2 \<bar>?x\<bar>" by simp
  then have e0: "0 \<le> ?e" by simp
  then have ex: "exponent ?x = ?e" by (simp add: exponent_def)
  from floor_log2_bounds [OF x0] have lo: "2 powi ?e \<le> \<bar>?x\<bar>" by simp
  have e53: "?e \<le> 53"
  proof (rule ccontr)
    assume "\<not> ?e \<le> 53"
    then have "(2::real) powi 53 < 2 powi ?e"
      by (intro power_int_strict_increasing) simp_all
    with lo x53 show False by linarith
  qed
  show ?thesis
  proof (cases "?e \<le> 52")
    case True
    let ?k = "nat (52 - ?e)"
    have "ulp ?x * 2 powi (52 - ?e) = 1"
      unfolding ulp_def ex by (subst power_int_add [symmetric]) simp_all
    then have "1 / ulp ?x = 2 powi (52 - ?e)"
      using ulp_pos [of ?x] by (simp add: field_simps)
    also have "\<dots> = of_int (2 ^ ?k)"
      using True by (simp add: power_int_def)
    finally have inv: "1 / ulp ?x = of_int (2 ^ ?k)" .
    have "?x / ulp ?x = ?x * (1 / ulp ?x)" by simp
    also have "\<dots> = of_int (n * 2 ^ ?k)" by (simp only: inv of_int_mult)
    finally have "?x / ulp ?x = of_int (n * 2 ^ ?k)" .
    with x0 show ?thesis by (rule roundReal_exact)
  next
    case False
    with e53 have e: "?e = 53" by linarith
    with lo x53 have "\<bar>?x\<bar> = 2 ^ 53" by simp
    then have n: "\<bar>n\<bar> = 2 ^ 53"
      by (metis of_int_abs of_int_eq_iff of_int_numeral of_int_power)
    have u: "ulp ?x = 2" by (simp add: ulp_def ex e)
    from n have "even \<bar>n\<bar>" by simp
    then have "even n" by (simp only: dvd_abs_iff)
    then have "n = 2 * (n div 2)" by simp
    then have "?x = 2 * of_int (n div 2)"
      by (metis of_int_mult of_int_numeral)
    then have "?x / ulp ?x = of_int (n div 2)"
      unfolding u by simp
    with x0 show ?thesis by (rule roundReal_exact)
  qed
qed

section \<open>Arithmetic on numbers\<close>

lemma overflowBound_pos: "0 < overflowBound"
  by (simp add: overflowBound_def)

lemma representableD:
  "representable v \<Longrightarrow> roundReal v = v \<and> \<bar>v\<bar> < overflowBound"
  by (simp add: representable_def round64_def Let_def split: if_splits)

lemma representable_zero: "representable 0"
  using overflowBound_pos by (simp add: representable_def round64_def roundReal_zero)

lemma round64_between:
  assumes "representable a" "representable b" "a \<le> x" "x \<le> b"
  shows "\<exists>v. round64 x = Finite v \<and> a \<le> v \<and> v \<le> b"
proof -
  from representableD [OF assms(1)] have a: "roundReal a = a" "\<bar>a\<bar> < overflowBound"
    by blast+
  from representableD [OF assms(2)] have b: "roundReal b = b" "\<bar>b\<bar> < overflowBound"
    by blast+
  from roundReal_mono [OF assms(3)] roundReal_mono [OF assms(4)]
  have v: "a \<le> roundReal x" "roundReal x \<le> b"
    by (simp_all add: a b)
  with a(2) b(2) have "\<bar>roundReal x\<bar> < overflowBound" by linarith
  with v show ?thesis
    by (simp add: round64_def Let_def)
qed


lemma nonneg_cases:
  "le64 (Finite 0) x \<longleftrightarrow> (\<exists>v. x = Finite v \<and> 0 \<le> v) \<or> x = PosInfinity"
  by (cases x) simp_all





lemma bounded_cases:
  "le64 (Finite lo) x \<and> le64 x (Finite hi) \<longleftrightarrow> (\<exists>r. x = Finite r \<and> lo \<le> r \<and> r \<le> hi)"
  by (cases x) simp_all

lemma foldl_fadd_bounds:
  assumes "\<forall>x\<in>set xs. le64 (Finite lo) x \<and> le64 x (Finite hi)"
    and "\<forall>j\<le>i + length xs. representable (real j * lo) \<and> representable (real j * hi)"
    and "real i * lo \<le> s" "s \<le> real i * hi"
  shows "\<exists>t. foldl (\<lambda>a b. fadd a b) (Finite s) xs = Finite t
           \<and> real (i + length xs) * lo \<le> t \<and> t \<le> real (i + length xs) * hi"
  using assms
proof (induction xs arbitrary: s i)
  case Nil
  then show ?case by simp
next
  case (Cons x xs)
  from Cons.prems(1) obtain r where x: "x = Finite r" and r: "lo \<le> r" "r \<le> hi"
    using bounded_cases [of lo x hi] by auto
  have "Suc i \<le> i + length (x # xs)" by simp
  with Cons.prems(2) have rep: "representable (real (Suc i) * lo)" "representable (real (Suc i) * hi)"
    by blast+
  have "real (Suc i) * lo \<le> s + r" "s + r \<le> real (Suc i) * hi"
    using Cons.prems(3,4) r by (simp_all add: algebra_simps)
  from round64_between [OF rep this]
  obtain v where v: "round64 (s + r) = Finite v" "real (Suc i) * lo \<le> v" "v \<le> real (Suc i) * hi"
    by blast
  have "\<exists>t. foldl (\<lambda>a b. fadd a b) (Finite v) xs = Finite t
           \<and> real (Suc i + length xs) * lo \<le> t \<and> t \<le> real (Suc i + length xs) * hi"
    using Cons.prems(1,2) v(2,3) by (intro Cons.IH) simp_all
  then show ?case by (simp add: x v(1))
qed

lemma average_bounds:
  assumes "xs \<noteq> []"
    and "\<forall>x\<in>set xs. le64 (Finite lo) x \<and> le64 x (Finite hi)"
    and "\<forall>j\<le>length xs. representable (real j * lo) \<and> representable (real j * hi)"
  shows "le64 (Finite lo) (average xs) \<and> le64 (average xs) (Finite hi)"
proof -
  let ?n = "length xs"
  from assms(1) have n: "0 < ?n" by simp
  from foldl_fadd_bounds [where i = 0 and s = 0, OF assms(2)] assms(3)
  obtain t where t: "foldl (\<lambda>a b. fadd a b) (Finite 0) xs = Finite t"
      "real ?n * lo \<le> t" "t \<le> real ?n * hi"
    by auto
  from n t(2,3) have q: "lo \<le> t / real ?n" "t / real ?n \<le> hi"
    by (simp_all add: pos_le_divide_eq pos_divide_le_eq mult.commute)
  from assms(3) n have "representable (real 1 * lo)" "representable (real 1 * hi)"
    by (metis One_nat_def Suc_leI)+
  then have "representable lo" "representable hi" by simp_all
  from round64_between [OF this q] obtain v
    where "round64 (t / real ?n) = Finite v" "lo \<le> v" "v \<le> hi" by blast
  with n t(1) show ?thesis by (simp add: average_def)
qed

lemma representable_of_int:
  assumes "\<bar>n\<bar> \<le> 2 ^ 53"
  shows "representable (of_int n)"
proof -
  have "\<bar>real_of_int n\<bar> \<le> 2 ^ 53"
    using assms by (metis of_int_abs of_int_le_iff of_int_numeral of_int_power)
  also have "(2::real) ^ 53 < overflowBound"
    unfolding overflowBound_def by (rule power_strict_increasing) simp_all
  finally show ?thesis
    by (simp add: representable_def round64_def roundReal_of_int [OF assms])
qed

text \<open>Evaluation of a rounding in a given binade.\<close>

lemma abs_roundReal: "\<bar>roundReal x\<bar> = roundReal \<bar>x\<bar>"
proof (cases "0 \<le> x")
  case True
  then show ?thesis using roundReal_nonneg [of x] by simp
next
  case False
  then have "0 \<le> - x" by simp
  from roundReal_nonneg [OF this] False show ?thesis
    by (simp add: roundReal_minus)
qed

lemma round64_normal:
  assumes "2 powi k \<le> \<bar>x\<bar>" "\<bar>x\<bar> < 2 powi (k + 1)" "- 1022 \<le> k" "k \<le> 1022"
  shows "round64 x = Finite (2 powi (k - 52) * of_int (rne (x / 2 powi (k - 52))))"
proof -
  from assms(3) have m: "max k (- 1022) = k" by simp
  have r: "roundReal x = 2 powi (k - 52) * of_int (rne (x / 2 powi (k - 52)))"
    using roundReal_binade [OF assms(1,2)] by (simp only: m)
  have pos: "0 < \<bar>x\<bar>" using assms(1) by (smt (verit) zero_less_power_int)
  have e: "exponent \<bar>x\<bar> = k"
    using floor_log2_eqI [OF assms(1,2)] assms(3) by (simp add: exponent_def)
  have "\<bar>roundReal x\<bar> \<le> 2 powi (k + 1)"
    using roundReal_upper [OF pos] by (simp only: abs_roundReal e)
  also have "(2::real) powi (k + 1) < 2 powi 1024"
    using assms(4) by (intro power_int_strict_increasing) simp_all
  also have "(2::real) powi 1024 = overflowBound"
    by (simp add: overflowBound_def)
  finally have "\<not> overflowBound \<le> \<bar>roundReal x\<bar>" by simp
  then show ?thesis
    by (simp add: round64_def Let_def r)
qed

lemma round64_zero: "round64 0 = Finite 0"
  using representable_zero by (simp add: representable_def)

lemma round64_of_int: "\<bar>n\<bar> \<le> 2 ^ 53 \<Longrightarrow> round64 (of_int n) = Finite (of_int n)"
  using representable_of_int [of n] by (simp add: representable_def)

lemma round64_numeral: "numeral w \<le> (2 ^ 53 :: int) \<Longrightarrow> round64 (numeral w) = Finite (numeral w)"
  using round64_of_int [of "numeral w"] by simp

lemmas round64_binades =
  round64_normal [where k = "- 4"] round64_normal [where k = "- 3"]
  round64_normal [where k = "- 2"] round64_normal [where k = "- 1"]
  round64_normal [where k = 6] round64_normal [where k = 7]



text \<open>Sums of integers are exact while they stay within \<open>2 ^ 53\<close>.\<close>

lemma integerWithinD:
  "integerWithin b x \<Longrightarrow> x = Finite (of_int (intOf x)) \<and> \<bar>intOf x\<bar> \<le> b"
  by (cases x) (simp_all add: integerWithin_def intOf_def)

lemma foldl_fadd_int:
  assumes "\<forall>x\<in>set xs. integerWithin b x"
    and "\<bar>z\<bar> + int (length xs) * b \<le> 2 ^ 53"
  shows "foldl (\<lambda>a b. fadd a b) (Finite (of_int z)) xs
       = Finite (of_int (z + sum_list (map intOf xs)))"
  using assms
proof (induction xs arbitrary: z)
  case Nil
  then show ?case by simp
next
  case (Cons x xs)
  from Cons.prems(1) have x: "x = Finite (of_int (intOf x))" and b: "\<bar>intOf x\<bar> \<le> b"
    using integerWithinD [of b x] by simp_all
  from b have b0: "0 \<le> b" by linarith
  then have nn: "0 \<le> int (length xs) * b" by simp
  have l: "int (length (x # xs)) * b = b + int (length xs) * b"
    by (simp add: algebra_simps)
  from Cons.prems(2) b nn have zn: "\<bar>z + intOf x\<bar> \<le> 2 ^ 53"
    unfolding l by linarith
  have step: "fadd (Finite (of_int z)) x = Finite (of_int (z + intOf x))"
    by (subst x) (simp add: round64_of_int [OF zn] flip: of_int_add)
  have "\<bar>z + intOf x\<bar> + int (length xs) * b \<le> 2 ^ 53"
    using Cons.prems(2) b unfolding l by linarith
  with Cons.prems(1) have "foldl (\<lambda>a b. fadd a b) (Finite (of_int (z + intOf x))) xs
       = Finite (of_int (z + intOf x + sum_list (map intOf xs)))"
    by (intro Cons.IH) simp_all
  then show ?case by (simp add: step add.assoc)
qed

lemma average_int:
  assumes "\<forall>x\<in>set xs. integerWithin b x" and "int (length xs) * b \<le> 2 ^ 53"
  shows "average xs = fdiv (Finite (of_int (sum_list (map intOf xs)))) (length xs)"
  using foldl_fadd_int [where z = 0, OF assms(1)] assms(2) by (simp add: average_def)

lemma average_int_perm:
  assumes "mset xs = mset ys"
    and "\<forall>x\<in>set xs. integerWithin b x" and "int (length xs) * b \<le> 2 ^ 53"
  shows "average xs = average ys"
proof -
  from assms(1) have set: "set ys = set xs" and len: "length ys = length xs"
    by (metis mset_eq_setD, metis size_mset)
  have "sum_list (map intOf xs) = sum_mset (mset (map intOf xs))"
    by (simp only: sum_mset_sum_list)
  also have "\<dots> = sum_mset (mset (map intOf ys))"
    by (simp add: assms(1))
  also have "\<dots> = sum_list (map intOf ys)"
    by (simp only: sum_mset_sum_list)
  finally have sum: "sum_list (map intOf xs) = sum_list (map intOf ys)" .
  have "average ys = fdiv (Finite (of_int (sum_list (map intOf ys)))) (length ys)"
    using assms(2,3) by (intro average_int [where b = b]) (simp_all add: set len)
  with average_int [OF assms(2,3)] show ?thesis
    by (simp add: sum len)
qed

text \<open>
  The decimal literals 0.1, 0.2 and 0.3 denote these binary64 values.
\<close>

lemma decimal_literals:
  "round64 (1 / 10) = Finite (3602879701896397 / 36028797018963968)"
  "round64 (2 / 10) = Finite (3602879701896397 / 18014398509481984)"
  "round64 (3 / 10) = Finite (5404319552844595 / 18014398509481984)"
  "representable (3602879701896397 / 36028797018963968)"
  "representable (3602879701896397 / 18014398509481984)"
  "representable (5404319552844595 / 18014398509481984)"
  by (simp_all add: representable_def round64_binades rne_def Let_def)

text \<open>
  A sum of two finite values overflows to infinity: the powers of two are binary64
  values up to \<open>2 powi 1023\<close>, and twice that one is not.
\<close>

lemma roundReal_pow2:
  assumes "- 1022 \<le> k"
  shows "roundReal (2 powi k) = 2 powi k"
proof -
  let ?x = "(2::real) powi k"
  have pos: "0 < ?x" by simp
  have "?x < 2 powi (k + 1)"
    by (rule power_int_strict_increasing) simp_all
  with pos have "\<lfloor>log 2 \<bar>?x\<bar>\<rfloor> = k"
    by (intro floor_log2_eqI) simp_all
  with assms have e: "exponent ?x = k" by (simp add: exponent_def)
  have "?x / ulp ?x = 2 powi (k - (k - 52))"
    unfolding ulp_def e by (rule power_int_diff [symmetric]) simp
  also have "\<dots> = of_int (2 ^ 52)" by simp
  finally have "?x / ulp ?x = of_int (2 ^ 52)" .
  with pos show ?thesis by (intro roundReal_exact) simp_all
qed

lemma overflow_to_infinity:
  "representable (2 powi 1023)"
  "fadd (Finite (2 powi 1023)) (Finite (2 powi 1023)) = PosInfinity"
proof -
  have ob: "overflowBound = 2 powi 1024"
    by (simp only: overflowBound_def power_int_numeral)
  have lt: "(2::real) powi 1023 < 2 powi 1024"
    by (rule power_int_strict_increasing) simp_all
  have r: "roundReal (2 powi 1023) = 2 powi 1023"
    by (rule roundReal_pow2) simp
  have p: "\<bar>(2::real) powi 1023\<bar> = 2 powi 1023"
    by (rule abs_of_pos) (rule zero_less_power_int, simp)
  show "representable (2 powi 1023)"
    unfolding representable_def round64_def Let_def r p ob using lt by simp
  have r': "roundReal (2 powi 1024) = 2 powi 1024"
    by (rule roundReal_pow2) simp
  have p': "\<bar>(2::real) powi 1024\<bar> = 2 powi 1024"
    by (rule abs_of_pos) (rule zero_less_power_int, simp)
  have pos: "(0::real) < 2 powi 1024"
    by (rule zero_less_power_int) simp
  have "(2::real) powi (1023 + 1) = 2 powi 1023 * 2"
    by (rule power_int_add_1) simp
  also have "\<dots> = 2 powi 1023 + 2 powi 1023"
    by (rule mult_2_right)
  also have "(1023::int) + 1 = 1024" by simp
  finally have sum: "(2::real) powi 1023 + 2 powi 1023 = 2 powi 1024" by (rule sym)
  have "round64 (2 powi 1024) = PosInfinity"
    unfolding round64_def Let_def r' p' ob using pos by simp
  then show "fadd (Finite (2 powi 1023)) (Finite (2 powi 1023)) = PosInfinity"
    by (simp only: fadd.simps sum)
qed

section \<open>The fields of the report\<close>

lemma byCategory_wr:
  "byCategory (weightedReputation query atts) =
     categoryScores (groupByCategory (filterAttestations query atts))"
  by (simp add: weightedReputation_def Let_def)

lemma overall_wr:
  "overall (weightedReputation query atts) = overallOf (byCategory (weightedReputation query atts))"
  by (simp add: weightedReputation_def Let_def)

lemma riskLevel_wr: "riskLevel (weightedReputation query atts) = riskLevelOf (length atts)"
  by (simp add: weightedReputation_def Let_def)

lemma totalAttestations_wr: "totalAttestations (weightedReputation query atts) = length atts"
  by (simp add: weightedReputation_def Let_def)

lemma decayFactor_wr: "decayFactor (weightedReputation query atts) = round64 (98 / 100)"
  by (simp add: weightedReputation_def Let_def)

lemma suspicionScore_wr: "suspicionScore (weightedReputation query atts) = Finite 0"
  by (simp add: weightedReputation_def Let_def)

section \<open>Filtering\<close>

lemma filterAttestations_filter:
  "filterAttestations query atts = filter (matchesQuery query) atts"
  by (auto simp: filterAttestations_def matchesQuery_def Let_def intro: filter_cong)

lemma filterAttestations_None: "filterAttestations None atts = atts"
  by (simp add: filterAttestations_def optField_def truthy_def)

section \<open>The overall score\<close>

lemma overallOf_entries:
  "overallOf cs =
     (if cs = [] then Finite 0
      else fdiv (foldl (\<lambda>a b. fadd a b) (Finite 0) (map snd cs)) (length cs))"
  by (simp add: overallOf_def Let_def)

section \<open>The grouping loop\<close>

lemma map_fst_pushScore:
  "map fst (pushScore k s g) = (if k \<in> set (map fst g) then map fst g else map fst g @ [k])"
  by (induction g) force+

lemma map_of_pushScore:
  "map_of (pushScore k s g) k' =
     (if k' = k then Some (case map_of g k of None \<Rightarrow> [s] | Some l \<Rightarrow> l @ [s]) else map_of g k')"
  by (induction g) auto

lemma distinct_pushScore: "distinct (map fst g) \<Longrightarrow> distinct (map fst (pushScore k s g))"
  by (simp add: map_fst_pushScore)

text \<open>The loop from any object \<open>g\<close>: the loop invariant, by induction on the input.\<close>

lemma map_of_foldl_pushScore:
  "map_of (foldl (\<lambda>byCat att. pushScore (categoryKey att) (score att) byCat) g atts) k =
     (case map_of g k of
        None \<Rightarrow> (if scoresOf k atts = [] then None else Some (scoresOf k atts))
      | Some l \<Rightarrow> Some (l @ scoresOf k atts))"
  by (induction atts arbitrary: g) (auto simp: scoresOf_def map_of_pushScore split: option.splits)

lemma distinct_foldl_pushScore:
  "distinct (map fst g) \<Longrightarrow>
   distinct (map fst (foldl (\<lambda>byCat att. pushScore (categoryKey att) (score att) byCat) g atts))"
  by (induction atts arbitrary: g) (auto simp: distinct_pushScore)

lemma map_of_groupByCategory:
  "map_of (groupByCategory atts) k = (if scoresOf k atts = [] then None else Some (scoresOf k atts))"
  by (simp add: groupByCategory_def map_of_foldl_pushScore)

lemma distinct_groupByCategory: "distinct (map fst (groupByCategory atts))"
  by (simp add: groupByCategory_def distinct_foldl_pushScore)

lemma scoresOf_empty_iff: "scoresOf k atts = [] \<longleftrightarrow> k \<notin> categoryKey ` set atts"
  by (auto simp: scoresOf_def filter_empty_conv)

lemma keys_groupByCategory: "set (map fst (groupByCategory atts)) = categoryKey ` set atts"
proof -
  have "set (map fst (groupByCategory atts)) = dom (map_of (groupByCategory atts))"
    by (simp add: dom_map_of_conv_image_fst)
  also have "\<dots> = categoryKey ` set atts"
    by (auto simp: dom_def map_of_groupByCategory scoresOf_empty_iff)
  finally show ?thesis .
qed

section \<open>The per-category scores\<close>

lemma map_fst_categoryScores: "map fst (categoryScores g) = map fst g"
  by (simp add: categoryScores_def case_prod_unfold)

lemma map_of_categoryScores: "map_of (categoryScores g) k = map_option average (map_of g k)"
  by (induction g) (auto simp: categoryScores_def)

lemma map_of_byCategory:
  "map_of (byCategory (weightedReputation query atts)) k =
     (if scoresOf k (filterAttestations query atts) = [] then None
      else Some (average (scoresOf k (filterAttestations query atts))))"
  by (simp add: byCategory_wr map_of_categoryScores map_of_groupByCategory)

lemma keys_byCategory:
  "set (map fst (byCategory (weightedReputation query atts))) =
     categoryKey ` set (filterAttestations query atts)"
  by (simp only: byCategory_wr map_fst_categoryScores keys_groupByCategory)

lemma distinct_keys_byCategory:
  "distinct (map fst (byCategory (weightedReputation query atts)))"
  by (simp only: byCategory_wr map_fst_categoryScores distinct_groupByCategory)

section \<open>Bounds on the entries and on the overall score\<close>

lemma overallOf_average: "cs \<noteq> [] \<Longrightarrow> overallOf cs = average (map snd cs)"
  by (simp add: overallOf_def average_def Let_def)

lemma entry_byCategory:
  assumes "(k, v) \<in> set (byCategory (weightedReputation query atts))"
  shows "scoresOf k (filterAttestations query atts) \<noteq> []
       \<and> v = average (scoresOf k (filterAttestations query atts))"
proof -
  from assms have "map_of (byCategory (weightedReputation query atts)) k = Some v"
    by (simp add: distinct_keys_byCategory)
  then show ?thesis
    by (simp add: map_of_byCategory split: if_splits)
qed

lemma scoresOf_subset: "set (scoresOf k (filterAttestations query atts)) \<subseteq> score ` set atts"
  by (auto simp: scoresOf_def filterAttestations_filter)

lemma length_scoresOf: "length (scoresOf k (filterAttestations query atts)) \<le> length atts"
proof -
  have "length (scoresOf k (filterAttestations query atts))
      \<le> length (filterAttestations query atts)"
    by (simp add: scoresOf_def)
  also have "\<dots> \<le> length atts" by (simp add: filterAttestations_filter)
  finally show ?thesis .
qed

lemma length_byCategory: "length (byCategory (weightedReputation query atts)) \<le> length atts"
proof -
  let ?cs = "byCategory (weightedReputation query atts)"
  have "length ?cs = card (set (map fst ?cs))"
    using distinct_card [OF distinct_keys_byCategory [of query atts]] by simp
  also have "\<dots> = card (categoryKey ` set (filterAttestations query atts))"
    by (simp only: keys_byCategory)
  also have "\<dots> \<le> card (set (filterAttestations query atts))"
    by (rule card_image_le) simp
  also have "\<dots> \<le> length (filterAttestations query atts)"
    by (rule card_length)
  also have "\<dots> \<le> length atts"
    by (simp add: filterAttestations_filter)
  finally show ?thesis .
qed



lemma entries_bounds:
  assumes "\<forall>a\<in>set atts. le64 (Finite lo) (score a) \<and> le64 (score a) (Finite hi)"
    and "\<forall>j\<le>length atts. representable (real j * lo) \<and> representable (real j * hi)"
    and "v \<in> set (map snd (byCategory (weightedReputation query atts)))"
  shows "le64 (Finite lo) v \<and> le64 v (Finite hi)"
proof -
  from assms(3) obtain k where "(k, v) \<in> set (byCategory (weightedReputation query atts))"
    by auto
  let ?l = "scoresOf k (filterAttestations query atts)"
  from entry_byCategory [OF \<open>(k, v) \<in> _\<close>] have ne: "?l \<noteq> []" and v: "v = average ?l"
    by simp_all
  have b: "\<forall>x\<in>set ?l. le64 (Finite lo) x \<and> le64 x (Finite hi)"
    using assms(1) scoresOf_subset [of k query atts] by auto
  have r: "\<forall>j\<le>length ?l. representable (real j * lo) \<and> representable (real j * hi)"
    using assms(2) length_scoresOf [of k query atts] by (meson order_trans)
  from average_bounds [OF ne b r] v show ?thesis by simp
qed

lemma overall_bounds:
  assumes "byCategory (weightedReputation query atts) \<noteq> []"
    and "\<forall>v\<in>set (map snd (byCategory (weightedReputation query atts))).
           le64 (Finite lo) v \<and> le64 v (Finite hi)"
    and "\<forall>j\<le>length (byCategory (weightedReputation query atts)).
           representable (real j * lo) \<and> representable (real j * hi)"
  shows "le64 (Finite lo) (overall (weightedReputation query atts))
       \<and> le64 (overall (weightedReputation query atts)) (Finite hi)"
proof -
  let ?vs = "map snd (byCategory (weightedReputation query atts))"
  from assms(1) have ne: "?vs \<noteq> []" by simp
  from assms(3) have r: "\<forall>j\<le>length ?vs. representable (real j * lo) \<and> representable (real j * hi)"
    by simp
  from average_bounds [OF ne assms(2) r] assms(1) show ?thesis
    by (simp add: overall_wr overallOf_average)
qed

section \<open>Permutations of the input\<close>

lemma mset_scoresOf:
  assumes "mset atts = mset atts'"
  shows "mset (scoresOf k (filterAttestations query atts))
       = mset (scoresOf k (filterAttestations query atts'))"
  using assms by (simp add: scoresOf_def filterAttestations_filter)

lemma scoresOf_empty_perm:
  assumes "mset atts = mset atts'"
  shows "scoresOf k (filterAttestations query atts) = []
     \<longleftrightarrow> scoresOf k (filterAttestations query atts') = []"
  using mset_scoresOf [OF assms, of k query] by (metis mset_zero_iff)

lemma keys_perm:
  assumes "mset atts = mset atts'"
  shows "set (map fst (byCategory (weightedReputation query atts)))
       = set (map fst (byCategory (weightedReputation query atts')))"
proof -
  have "set (filterAttestations query atts) = set (filterAttestations query atts')"
    using assms by (metis filterAttestations_filter mset_filter mset_eq_setD)
  then show ?thesis by (simp only: keys_byCategory)
qed

lemma length_byCategory_perm:
  assumes "mset atts = mset atts'"
  shows "length (byCategory (weightedReputation query atts))
       = length (byCategory (weightedReputation query atts'))"
proof -
  have "length (byCategory (weightedReputation q l))
      = card (set (map fst (byCategory (weightedReputation q l))))" for q l
    using distinct_card [OF distinct_keys_byCategory [of q l]] by simp
  then show ?thesis by (simp only: keys_perm [OF assms])
qed

lemma byCategory_int_perm:
  assumes "mset atts = mset atts'"
    and "\<forall>a\<in>set atts. integerWithin b (score a)"
    and "int (length atts) * b \<le> 2 ^ 53"
  shows "map_of (byCategory (weightedReputation query atts))
       = map_of (byCategory (weightedReputation query atts'))"
proof (rule ext)
  fix k
  let ?l = "scoresOf k (filterAttestations query atts)"
  let ?l' = "scoresOf k (filterAttestations query atts')"
  show "map_of (byCategory (weightedReputation query atts)) k
      = map_of (byCategory (weightedReputation query atts')) k"
  proof (cases "?l = []")
    case True
    with scoresOf_empty_perm [OF assms(1), of k query] show ?thesis
      by (simp add: map_of_byCategory)
  next
    case False
    then obtain x where "x \<in> set ?l" by (cases ?l) auto
    with assms(2) scoresOf_subset [of k query atts] have "integerWithin b x" by auto
    then have b0: "0 \<le> b" using integerWithinD [of b x] by linarith
    have ints: "\<forall>x\<in>set ?l. integerWithin b x"
      using assms(2) scoresOf_subset [of k query atts] by auto
    have "int (length ?l) * b \<le> int (length atts) * b"
      using length_scoresOf [of k query atts] b0 by (simp add: mult_right_mono)
    with assms(3) have len: "int (length ?l) * b \<le> 2 ^ 53" by linarith
    from average_int_perm [OF mset_scoresOf [OF assms(1)] ints len]
    have "average ?l = average ?l'" .
    with False scoresOf_empty_perm [OF assms(1), of k query] show ?thesis
      by (simp add: map_of_byCategory)
  qed
qed

section \<open>The key of a category\<close>

text \<open>
  The key is the concatenation of namespace, colon and tag. It is read back without
  ambiguity when the namespaces hold no colon: the namespace is then the part before
  the first colon.
\<close>

lemma categoryKey_inj:
  assumes "CHR '':'' \<notin> set (namespace a)" "CHR '':'' \<notin> set (namespace b)"
    and "categoryKey a = categoryKey b"
  shows "namespace a = namespace b \<and> tag a = tag b"
proof -
  from assms(3) have eq: "namespace a @ CHR '':'' # tag a = namespace b @ CHR '':'' # tag b"
    by (simp add: categoryKey_def)
  have "takeWhile (\<lambda>c. c \<noteq> CHR '':'') (namespace a @ CHR '':'' # tag a) = namespace a"
    using assms(1) by (auto simp: takeWhile_tail)
  moreover have "takeWhile (\<lambda>c. c \<noteq> CHR '':'') (namespace b @ CHR '':'' # tag b) = namespace b"
    using assms(2) by (auto simp: takeWhile_tail)
  ultimately have "namespace a = namespace b" using eq by simp
  with eq show ?thesis by simp
qed

text \<open>
  Then the entry of an attestation's key is the average of the scores of the
  attestations of the same namespace and tag, among those that pass the filter.
\<close>

lemma byCategory_per_pair:
  assumes colon: "\<forall>b\<in>set (filterAttestations query atts). CHR '':'' \<notin> set (namespace b)"
    and a: "a \<in> set (filterAttestations query atts)"
  shows "map_of (byCategory (weightedReputation query atts)) (categoryKey a) =
     Some (average (map score (filter (\<lambda>b. namespace b = namespace a \<and> tag b = tag a)
                                  (filterAttestations query atts))))"
proof -
  let ?surv = "filterAttestations query atts"
  have "filter (\<lambda>b. categoryKey b = categoryKey a) ?surv
      = filter (\<lambda>b. namespace b = namespace a \<and> tag b = tag a) ?surv"
  proof (rule filter_cong [OF refl])
    fix b assume "b \<in> set ?surv"
    with colon a show "(categoryKey b = categoryKey a) = (namespace b = namespace a \<and> tag b = tag a)"
      using categoryKey_inj [of b a] by (auto simp: categoryKey_def)
  qed
  then have eq: "scoresOf (categoryKey a) ?surv
      = map score (filter (\<lambda>b. namespace b = namespace a \<and> tag b = tag a) ?surv)"
    by (simp add: scoresOf_def)
  have "scoresOf (categoryKey a) ?surv \<noteq> []"
    using a by (auto simp: scoresOf_empty_iff)
  then show ?thesis
    unfolding map_of_byCategory by (simp add: eq)
qed

section \<open>The method and its body\<close>

lemma fetch_gwr:
  "fetchAttestations sdk agentId = Inr attestations \<Longrightarrow>
   getWeightedReputation agentId query sdk = (Inr (weightedReputation query attestations), sdk)"
  by (simp add: getWeightedReputation_def)

lemma snd_gwr: "snd (getWeightedReputation agentId query sdk) = sdk"
  by (simp add: getWeightedReputation_def split: sum.splits)

section \<open>The example of the specification\<close>

lemma representable_multiples:
  assumes "int k * \<bar>n\<bar> \<le> 2 ^ 53"
  shows "\<forall>j\<le>k. representable (real j * of_int n)"
proof (intro allI impI)
  fix j assume "j \<le> k"
  then have "int j * \<bar>n\<bar> \<le> int k * \<bar>n\<bar>" by (simp add: mult_right_mono)
  with assms have "\<bar>int j * n\<bar> \<le> 2 ^ 53" by (simp add: abs_mult)
  from representable_of_int [OF this] show "representable (real j * of_int n)" by simp
qed

lemma example_report:
  "byCategory (weightedReputation None exampleAttestations) = [(''a:x'', Finite 90), (''a:y'', Finite 50)]"
  "overall (weightedReputation None exampleAttestations) = Finite 70"
proof -
  show cats: "byCategory (weightedReputation None exampleAttestations) = [(''a:x'', Finite 90), (''a:y'', Finite 50)]"
    by (simp add: byCategory_wr filterAttestations_None groupByCategory_def categoryKey_def
        categoryScores_def average_def round64_zero round64_numeral)
  show "overall (weightedReputation None exampleAttestations) = Finite 70"
    by (simp add: overall_wr cats overallOf_def Let_def round64_numeral)
qed

section \<open>Properties of the report\<close>

text \<open>
  C1. The entries of \<open>byCategory\<close> are meant to be one per pair (namespace, tag) of the
  attestations that pass the filter, each the mean of the scores of its pair. The key
  does not identify the pair when a field holds a colon: the attestations
  (a:b, c, 0) and (a, b:c, 100) have different pairs and the same key a:b:c, and the
  report has the single entry a:b:c \<mapsto> 50, the mean of neither pair.
\<close>

theorem categoryKey_collision:
  "(namespace (att ''a:b'' ''c'' (Finite 0)), tag (att ''a:b'' ''c'' (Finite 0)))
     \<noteq> (namespace (att ''a'' ''b:c'' (Finite 100)), tag (att ''a'' ''b:c'' (Finite 100)))
   \<and> categoryKey (att ''a:b'' ''c'' (Finite 0)) = categoryKey (att ''a'' ''b:c'' (Finite 100))
   \<and> byCategory (weightedReputation None [att ''a:b'' ''c'' (Finite 0), att ''a'' ''b:c'' (Finite 100)])
       = [(''a:b:c'', Finite 50)]"
  by (simp add: byCategory_wr filterAttestations_None groupByCategory_def categoryKey_def
      categoryScores_def average_def round64_zero round64_numeral)

text \<open>
  C2. The field \<open>overall\<close> is the binary64 mean of the entries of \<open>byCategory\<close> (the
  per-group means): the entries are added from the left, starting at 0, every sum
  rounded, and the total is divided by the number of entries and rounded; it is 0 when
  there is no group. For the three attestations (a, x, 80), (a, x, 100), (a, y, 50) and
  no filter, whatever their other fields, \<open>byCategory\<close> is a:x \<mapsto> 90, a:y \<mapsto> 50,
  \<open>overall\<close> is 70 (the mean of 90 and 50, not the mean of the three scores),
  \<open>totalAttestations\<close> is 3 and \<open>riskLevel\<close> is critical.
\<close>

theorem overall_mean_of_group_means:
  "overall (weightedReputation query attestations) =
     (if byCategory (weightedReputation query attestations) = [] then Finite 0
      else fdiv (foldl (\<lambda>a b. fadd a b) (Finite 0)
                   (map snd (byCategory (weightedReputation query attestations))))
                (length (byCategory (weightedReputation query attestations))))
   \<and> byCategory (weightedReputation None
         [a1\<lparr>namespace := ''a'', tag := ''x'', score := Finite 80\<rparr>,
          a2\<lparr>namespace := ''a'', tag := ''x'', score := Finite 100\<rparr>,
          a3\<lparr>namespace := ''a'', tag := ''y'', score := Finite 50\<rparr>]) = [(''a:x'', Finite 90), (''a:y'', Finite 50)]
   \<and> overall (weightedReputation None
         [a1\<lparr>namespace := ''a'', tag := ''x'', score := Finite 80\<rparr>,
          a2\<lparr>namespace := ''a'', tag := ''x'', score := Finite 100\<rparr>,
          a3\<lparr>namespace := ''a'', tag := ''y'', score := Finite 50\<rparr>]) = Finite 70
   \<and> totalAttestations (weightedReputation None
         [a1\<lparr>namespace := ''a'', tag := ''x'', score := Finite 80\<rparr>,
          a2\<lparr>namespace := ''a'', tag := ''x'', score := Finite 100\<rparr>,
          a3\<lparr>namespace := ''a'', tag := ''y'', score := Finite 50\<rparr>]) = 3
   \<and> riskLevel (weightedReputation None
         [a1\<lparr>namespace := ''a'', tag := ''x'', score := Finite 80\<rparr>,
          a2\<lparr>namespace := ''a'', tag := ''x'', score := Finite 100\<rparr>,
          a3\<lparr>namespace := ''a'', tag := ''y'', score := Finite 50\<rparr>]) = Critical"
proof -
  let ?ex = "[a1\<lparr>namespace := ''a'', tag := ''x'', score := Finite 80\<rparr>,
          a2\<lparr>namespace := ''a'', tag := ''x'', score := Finite 100\<rparr>,
          a3\<lparr>namespace := ''a'', tag := ''y'', score := Finite 50\<rparr>]"
  have general: "overall (weightedReputation query attestations) =
     (if byCategory (weightedReputation query attestations) = [] then Finite 0
      else fdiv (foldl (\<lambda>a b. fadd a b) (Finite 0)
                   (map snd (byCategory (weightedReputation query attestations))))
                (length (byCategory (weightedReputation query attestations))))"
    by (simp only: overall_wr overallOf_entries)
  have cats: "byCategory (weightedReputation None ?ex) = [(''a:x'', Finite 90), (''a:y'', Finite 50)]"
    by (simp add: byCategory_wr filterAttestations_None groupByCategory_def categoryKey_def
        categoryScores_def average_def round64_zero round64_numeral)
  have ov: "overall (weightedReputation None ?ex) = Finite 70"
    by (simp add: overall_wr cats overallOf_def Let_def round64_numeral)
  have tot: "totalAttestations (weightedReputation None ?ex) = 3"
    by (simp add: totalAttestations_wr)
  have risk: "riskLevel (weightedReputation None ?ex) = Critical"
    by (simp add: riskLevel_wr riskLevelOf_def)
  from general cats ov tot risk show ?thesis by blast
qed

text \<open>
  The binary64 mean is not the exact mean of the entries. For the scores 95, 90, 90 of
  a:x and 70 of b:y the entries are 91.66666666666667 and 70 and \<open>overall\<close> is
  80.83333333333334, which differs from half the exact sum of the two entries.
\<close>

theorem overall_exact_mean_counterexample:
  "byCategory (weightedReputation None
       [att ''a'' ''x'' (Finite 95), att ''a'' ''x'' (Finite 90), att ''a'' ''x'' (Finite 90),
        att ''b'' ''y'' (Finite 70)])
     = [(''a:x'', Finite (6450468216285867 / 70368744177664)), (''b:y'', Finite 70)]
   \<and> overall (weightedReputation None
       [att ''a'' ''x'' (Finite 95), att ''a'' ''x'' (Finite 90), att ''a'' ''x'' (Finite 90),
        att ''b'' ''y'' (Finite 70)])
     = Finite (2844070077180587 / 35184372088832)
   \<and> (2844070077180587 / 35184372088832 :: real) \<noteq> (6450468216285867 / 70368744177664 + 70) / 2"
proof -
  let ?ex = "[att ''a'' ''x'' (Finite 95), att ''a'' ''x'' (Finite 90), att ''a'' ''x'' (Finite 90),
        att ''b'' ''y'' (Finite 70)]"
  have cats: "byCategory (weightedReputation None ?ex)
     = [(''a:x'', Finite (6450468216285867 / 70368744177664)), (''b:y'', Finite 70)]"
    by (simp add: byCategory_wr filterAttestations_None groupByCategory_def categoryKey_def
        categoryScores_def average_def round64_zero round64_numeral round64_binades rne_def Let_def)
  have ov: "overall (weightedReputation None ?ex) = Finite (2844070077180587 / 35184372088832)"
    by (simp add: overall_wr cats overallOf_def Let_def round64_binades rne_def)
  from cats ov show ?thesis by simp
qed

text \<open>
  C3. The field \<open>riskLevel\<close> is a function of the number n of attestations before
  filtering, whatever the filter: low iff n > 20, medium iff 10 < n \<le> 20, high iff
  5 < n \<le> 10, critical iff n \<le> 5. So 21 attestations give low, 20 and 11 give medium,
  10 and 6 give high, 5 and 0 give critical.
\<close>

theorem riskLevel_thresholds:
  "riskLevel (weightedReputation query attestations) = riskLevelOf (length attestations)
   \<and> (riskLevel (weightedReputation query attestations) = Low \<longleftrightarrow> 20 < length attestations)
   \<and> (riskLevel (weightedReputation query attestations) = Medium
        \<longleftrightarrow> 10 < length attestations \<and> length attestations \<le> 20)
   \<and> (riskLevel (weightedReputation query attestations) = High
        \<longleftrightarrow> 5 < length attestations \<and> length attestations \<le> 10)
   \<and> (riskLevel (weightedReputation query attestations) = Critical \<longleftrightarrow> length attestations \<le> 5)
   \<and> riskLevel (weightedReputation query (replicate 21 a)) = Low
   \<and> riskLevel (weightedReputation query (replicate 20 a)) = Medium
   \<and> riskLevel (weightedReputation query (replicate 11 a)) = Medium
   \<and> riskLevel (weightedReputation query (replicate 10 a)) = High
   \<and> riskLevel (weightedReputation query (replicate 6 a)) = High
   \<and> riskLevel (weightedReputation query (replicate 5 a)) = Critical
   \<and> riskLevel (weightedReputation query (replicate 0 a)) = Critical"
  by (simp add: riskLevel_wr riskLevelOf_def)

text \<open>
  C4. The filter is a frame for the grouping. With the filter, the keys of
  \<open>byCategory\<close> are among the keys without it; \<open>byCategory\<close> and \<open>overall\<close> are what the
  attestations that pass the filter give on their own, so two lists with the same such
  attestations give the same \<open>byCategory\<close> and \<open>overall\<close>; the entry of a key is the
  average, as the code computes it, of the scores of the passing attestations of that
  key. \<open>totalAttestations\<close> and \<open>riskLevel\<close> come from the whole list and are the same
  for every filter.
\<close>

theorem filter_frame:
  "set (map fst (byCategory (weightedReputation query attestations)))
     \<subseteq> set (map fst (byCategory (weightedReputation None attestations)))
   \<and> byCategory (weightedReputation query attestations)
       = byCategory (weightedReputation None (filter (matchesQuery query) attestations))
   \<and> overall (weightedReputation query attestations)
       = overall (weightedReputation None (filter (matchesQuery query) attestations))
   \<and> (filter (matchesQuery query) attestations = filter (matchesQuery query) attestations' \<longrightarrow>
        byCategory (weightedReputation query attestations)
          = byCategory (weightedReputation query attestations')
        \<and> overall (weightedReputation query attestations)
          = overall (weightedReputation query attestations'))
   \<and> map_of (byCategory (weightedReputation query attestations)) key =
       (if scoresOf key (filter (matchesQuery query) attestations) = [] then None
        else Some (average (scoresOf key (filter (matchesQuery query) attestations))))
   \<and> totalAttestations (weightedReputation query attestations) = length attestations
   \<and> riskLevel (weightedReputation query attestations) = riskLevelOf (length attestations)
   \<and> totalAttestations (weightedReputation query attestations)
       = totalAttestations (weightedReputation query' attestations)
   \<and> riskLevel (weightedReputation query attestations)
       = riskLevel (weightedReputation query' attestations)"
proof -
  have keys: "set (map fst (byCategory (weightedReputation query attestations)))
     \<subseteq> set (map fst (byCategory (weightedReputation None attestations)))"
    unfolding keys_byCategory filterAttestations_None by (auto simp: filterAttestations_filter)
  have cats: "byCategory (weightedReputation q atts)
       = byCategory (weightedReputation None (filter (matchesQuery q) atts))" for q atts
  proof -
    have "byCategory (weightedReputation q atts)
        = categoryScores (groupByCategory (filter (matchesQuery q) atts))"
      by (simp only: byCategory_wr filterAttestations_filter)
    also have "\<dots> = byCategory (weightedReputation None (filter (matchesQuery q) atts))"
      by (simp only: byCategory_wr filterAttestations_None)
    finally show ?thesis .
  qed
  have ov: "overall (weightedReputation q atts)
       = overall (weightedReputation None (filter (matchesQuery q) atts))" for q atts
    by (simp only: overall_wr cats [of q atts])
  have same: "byCategory (weightedReputation query attestations)
          = byCategory (weightedReputation query attestations')
        \<and> overall (weightedReputation query attestations)
          = overall (weightedReputation query attestations')"
    if "filter (matchesQuery query) attestations = filter (matchesQuery query) attestations'"
    using that cats [of query attestations] cats [of query attestations']
      ov [of query attestations] ov [of query attestations'] by simp
  have entry: "map_of (byCategory (weightedReputation query attestations)) key =
       (if scoresOf key (filter (matchesQuery query) attestations) = [] then None
        else Some (average (scoresOf key (filter (matchesQuery query) attestations))))"
    by (simp only: map_of_byCategory filterAttestations_filter)
  show ?thesis
    using keys cats [of query attestations] ov [of query attestations] same entry
    by (simp add: totalAttestations_wr riskLevel_wr)
qed

theorem filter_frame_witness:
  "filter (matchesQuery (Some \<lparr> viewerAgentId = None, queryNamespace = Some ''a'', queryTag = None \<rparr>))
     [att ''a'' ''x'' (Finite 80), att ''b'' ''y'' (Finite 10)]
   = filter (matchesQuery (Some \<lparr> viewerAgentId = None, queryNamespace = Some ''a'', queryTag = None \<rparr>))
     [att ''b'' ''z'' (Finite 30), att ''a'' ''x'' (Finite 80)]
   \<and> byCategory (weightedReputation
         (Some \<lparr> viewerAgentId = None, queryNamespace = Some ''a'', queryTag = None \<rparr>)
         [att ''a'' ''x'' (Finite 80), att ''b'' ''y'' (Finite 10)])
     = byCategory (weightedReputation
         (Some \<lparr> viewerAgentId = None, queryNamespace = Some ''a'', queryTag = None \<rparr>)
         [att ''b'' ''z'' (Finite 30), att ''a'' ''x'' (Finite 80)])
   \<and> overall (weightedReputation
         (Some \<lparr> viewerAgentId = None, queryNamespace = Some ''a'', queryTag = None \<rparr>)
         [att ''a'' ''x'' (Finite 80), att ''b'' ''y'' (Finite 10)])
     = overall (weightedReputation
         (Some \<lparr> viewerAgentId = None, queryNamespace = Some ''a'', queryTag = None \<rparr>)
         [att ''b'' ''z'' (Finite 30), att ''a'' ''x'' (Finite 80)])"
proof -
  have h: "filter (matchesQuery (Some \<lparr> viewerAgentId = None, queryNamespace = Some ''a'', queryTag = None \<rparr>))
     [att ''a'' ''x'' (Finite 80), att ''b'' ''y'' (Finite 10)]
   = filter (matchesQuery (Some \<lparr> viewerAgentId = None, queryNamespace = Some ''a'', queryTag = None \<rparr>))
     [att ''b'' ''z'' (Finite 30), att ''a'' ''x'' (Finite 80)]"
    by (simp add: matchesQuery_def optField_def truthy_def)
  show ?thesis
    using h filter_frame [where query = "Some \<lparr> viewerAgentId = None, queryNamespace = Some ''a'', queryTag = None \<rparr>"
        and attestations = "[att ''a'' ''x'' (Finite 80), att ''b'' ''y'' (Finite 10)]"
        and attestations' = "[att ''b'' ''z'' (Finite 30), att ''a'' ''x'' (Finite 80)]"]
    by blast
qed

text \<open>
  C5. For the empty list and any filter the report is defined: \<open>overall\<close> 0, no
  category, \<open>totalAttestations\<close> 0, \<open>riskLevel\<close> critical. The method returns this report,
  and no error, when the fetch yields no attestation; and for every list that the fetch
  yields the method returns a report: the computation after the fetch has no failing
  branch.
\<close>

theorem empty_input_report:
  "weightedReputation query [] =
     \<lparr> overall = Finite 0, byCategory = [], decayFactor = round64 (98 / 100), riskLevel = Critical,
       suspicionScore = Finite 0, totalAttestations = 0 \<rparr>
   \<and> (fetchAttestations sdk agentId = Inr [] \<longrightarrow>
        fst (getWeightedReputation agentId query sdk) =
          Inr \<lparr> overall = Finite 0, byCategory = [], decayFactor = round64 (98 / 100), riskLevel = Critical,
                suspicionScore = Finite 0, totalAttestations = 0 \<rparr>)
   \<and> (fetchAttestations sdk agentId = Inr attestations \<longrightarrow>
        fst (getWeightedReputation agentId query sdk) = Inr (weightedReputation query attestations))"
proof -
  have empty: "weightedReputation query [] =
     \<lparr> overall = Finite 0, byCategory = [], decayFactor = round64 (98 / 100), riskLevel = Critical,
       suspicionScore = Finite 0, totalAttestations = 0 \<rparr>"
    by (simp add: weightedReputation_def filterAttestations_def groupByCategory_def
        categoryScores_def overallOf_def riskLevelOf_def Let_def)
  show ?thesis
    using empty by (auto simp: fetch_gwr)
qed

theorem empty_input_report_witness:
  "fetchAttestations
     \<lparr> trustGraph = \<lparr> contractGetAttestations = (\<lambda>agent. Inr []),
                      contractGetAttestation = (\<lambda>ident. Inl Rejected) \<rparr> \<rparr> 7 = Inr []
   \<and> fst (getWeightedReputation 7 None
         \<lparr> trustGraph = \<lparr> contractGetAttestations = (\<lambda>agent. Inr []),
                          contractGetAttestation = (\<lambda>ident. Inl Rejected) \<rparr> \<rparr>) =
       Inr \<lparr> overall = Finite 0, byCategory = [], decayFactor = round64 (98 / 100), riskLevel = Critical,
             suspicionScore = Finite 0, totalAttestations = 0 \<rparr>"
  using empty_input_report [where query = None and agentId = 7 and attestations = "[]"
      and sdk = "\<lparr> trustGraph = \<lparr> contractGetAttestations = (\<lambda>agent. Inr []),
                      contractGetAttestation = (\<lambda>ident. Inl Rejected) \<rparr> \<rparr>"]
  by (simp add: fetchAttestations_def getAttestations_def)




text \<open>
  C7. For every permutation of the list and every filter the two reports have the same
  \<open>totalAttestations\<close>, \<open>riskLevel\<close>, \<open>decayFactor\<close> and \<open>suspicionScore\<close>, the same keys
  in \<open>byCategory\<close>, and under each key the same scores as a multiset. When the scores
  are integers of magnitude at most \<open>b\<close>, with the number of attestations times \<open>b\<close>
  within \<open>2 ^ 53\<close>, the sums are exact and \<open>byCategory\<close> is the same mapping. Otherwise
  the entries, and in any case \<open>overall\<close>, are rounded sums taken in the order of the
  input and can differ in the last bits.
\<close>

theorem permutation_invariants:
  "mset attestations = mset attestations' \<longrightarrow>
     totalAttestations (weightedReputation query attestations)
       = totalAttestations (weightedReputation query attestations')
     \<and> riskLevel (weightedReputation query attestations)
       = riskLevel (weightedReputation query attestations')
     \<and> decayFactor (weightedReputation query attestations)
       = decayFactor (weightedReputation query attestations')
     \<and> suspicionScore (weightedReputation query attestations)
       = suspicionScore (weightedReputation query attestations')
     \<and> set (map fst (byCategory (weightedReputation query attestations)))
       = set (map fst (byCategory (weightedReputation query attestations')))
     \<and> length (byCategory (weightedReputation query attestations))
       = length (byCategory (weightedReputation query attestations'))
     \<and> mset (scoresOf key (filterAttestations query attestations))
       = mset (scoresOf key (filterAttestations query attestations'))
     \<and> ((\<forall>a\<in>set attestations. integerWithin b (score a))
          \<and> int (length attestations) * b \<le> 2 ^ 53 \<longrightarrow>
        map_of (byCategory (weightedReputation query attestations))
          = map_of (byCategory (weightedReputation query attestations')))"
proof (intro impI)
  assume p: "mset attestations = mset attestations'"
  then have len: "length attestations = length attestations'"
    by (metis size_mset)
  have ints: "map_of (byCategory (weightedReputation query attestations))
          = map_of (byCategory (weightedReputation query attestations'))"
    if "(\<forall>a\<in>set attestations. integerWithin b (score a))
          \<and> int (length attestations) * b \<le> 2 ^ 53"
    using that byCategory_int_perm [OF p, of b query] by blast
  show "totalAttestations (weightedReputation query attestations)
       = totalAttestations (weightedReputation query attestations')
     \<and> riskLevel (weightedReputation query attestations)
       = riskLevel (weightedReputation query attestations')
     \<and> decayFactor (weightedReputation query attestations)
       = decayFactor (weightedReputation query attestations')
     \<and> suspicionScore (weightedReputation query attestations)
       = suspicionScore (weightedReputation query attestations')
     \<and> set (map fst (byCategory (weightedReputation query attestations)))
       = set (map fst (byCategory (weightedReputation query attestations')))
     \<and> length (byCategory (weightedReputation query attestations))
       = length (byCategory (weightedReputation query attestations'))
     \<and> mset (scoresOf key (filterAttestations query attestations))
       = mset (scoresOf key (filterAttestations query attestations'))
     \<and> ((\<forall>a\<in>set attestations. integerWithin b (score a))
          \<and> int (length attestations) * b \<le> 2 ^ 53 \<longrightarrow>
        map_of (byCategory (weightedReputation query attestations))
          = map_of (byCategory (weightedReputation query attestations')))"
    using keys_perm [OF p, of query] length_byCategory_perm [OF p, of query]
      mset_scoresOf [OF p, of key query] ints
    by (simp add: totalAttestations_wr riskLevel_wr decayFactor_wr suspicionScore_wr len)
qed

theorem permutation_invariants_witness:
  "mset exampleAttestations = mset [att ''a'' ''y'' (Finite 50), att ''a'' ''x'' (Finite 100), att ''a'' ''x'' (Finite 80)]
   \<and> integerWithin 100 (Finite 80) \<and> integerWithin 100 (Finite 100)
   \<and> integerWithin 100 (Finite 50)
   \<and> int (length exampleAttestations) * 100 \<le> 2 ^ 53
   \<and> totalAttestations (weightedReputation None exampleAttestations)
       = totalAttestations (weightedReputation None [att ''a'' ''y'' (Finite 50), att ''a'' ''x'' (Finite 100), att ''a'' ''x'' (Finite 80)])
   \<and> riskLevel (weightedReputation None exampleAttestations)
       = riskLevel (weightedReputation None [att ''a'' ''y'' (Finite 50), att ''a'' ''x'' (Finite 100), att ''a'' ''x'' (Finite 80)])
   \<and> set (map fst (byCategory (weightedReputation None exampleAttestations)))
       = set (map fst (byCategory (weightedReputation None [att ''a'' ''y'' (Finite 50), att ''a'' ''x'' (Finite 100), att ''a'' ''x'' (Finite 80)])))
   \<and> map_of (byCategory (weightedReputation None exampleAttestations))
       = map_of (byCategory (weightedReputation None [att ''a'' ''y'' (Finite 50), att ''a'' ''x'' (Finite 100), att ''a'' ''x'' (Finite 80)]))"
proof -
  let ?p = "[att ''a'' ''y'' (Finite 50), att ''a'' ''x'' (Finite 100), att ''a'' ''x'' (Finite 80)]"
  have h1: "mset exampleAttestations = mset ?p" by simp
  have h2: "(\<forall>a\<in>set exampleAttestations. integerWithin 100 (score a))
      \<and> int (length exampleAttestations) * 100 \<le> 2 ^ 53"
    by (simp add: integerWithin_def)
  note inst = permutation_invariants [where attestations = exampleAttestations
      and attestations' = ?p and query = None and b = 100 and key = "''a:x''", THEN mp, OF h1]
  from inst have c1: "totalAttestations (weightedReputation None exampleAttestations)
       = totalAttestations (weightedReputation None ?p)"
    and c2: "riskLevel (weightedReputation None exampleAttestations)
       = riskLevel (weightedReputation None ?p)"
    and c3: "set (map fst (byCategory (weightedReputation None exampleAttestations)))
       = set (map fst (byCategory (weightedReputation None ?p)))"
    by blast+
  from inst h2 have c4: "map_of (byCategory (weightedReputation None exampleAttestations))
       = map_of (byCategory (weightedReputation None ?p))"
    by blast
  have h3: "integerWithin 100 (Finite 80) \<and> integerWithin 100 (Finite 100)
      \<and> integerWithin 100 (Finite 50)"
    by (simp add: integerWithin_def)
  from h2 have h4: "int (length exampleAttestations) * 100 \<le> 2 ^ 53" by blast
  from h1 h3 h4 c1 c2 c3 c4 show ?thesis by (intro conjI) blast+
qed

text \<open>
  Three categories with the scores 0.1, 0.2 and 0.3 (the binary64 values nearest to
  these decimals): in this order \<open>overall\<close> is 0.20000000000000004, in the reverse order
  0.19999999999999998.
\<close>

theorem permutation_changes_overall_counterexample:
  "overall (weightedReputation None
       [att ''a'' ''x'' (Finite (3602879701896397 / 36028797018963968)),
        att ''a'' ''y'' (Finite (3602879701896397 / 18014398509481984)),
        att ''a'' ''z'' (Finite (5404319552844595 / 18014398509481984))])
     = Finite (7205759403792795 / 36028797018963968)
   \<and> overall (weightedReputation None
       [att ''a'' ''z'' (Finite (5404319552844595 / 18014398509481984)),
        att ''a'' ''y'' (Finite (3602879701896397 / 18014398509481984)),
        att ''a'' ''x'' (Finite (3602879701896397 / 36028797018963968))])
     = Finite (7205759403792793 / 36028797018963968)
   \<and> Finite (7205759403792795 / 36028797018963968) \<noteq> Finite (7205759403792793 / 36028797018963968)"
proof -
  let ?d1 = "Finite (3602879701896397 / 36028797018963968)"
  let ?d2 = "Finite (3602879701896397 / 18014398509481984)"
  let ?d3 = "Finite (5404319552844595 / 18014398509481984)"
  have c1: "byCategory (weightedReputation None
        [att ''a'' ''x'' ?d1, att ''a'' ''y'' ?d2, att ''a'' ''z'' ?d3])
     = [(''a:x'', ?d1), (''a:y'', ?d2), (''a:z'', ?d3)]"
    by (simp add: byCategory_wr filterAttestations_None groupByCategory_def categoryKey_def
        categoryScores_def average_def round64_binades rne_def Let_def)
  have c2: "byCategory (weightedReputation None
        [att ''a'' ''z'' ?d3, att ''a'' ''y'' ?d2, att ''a'' ''x'' ?d1])
     = [(''a:z'', ?d3), (''a:y'', ?d2), (''a:x'', ?d1)]"
    by (simp add: byCategory_wr filterAttestations_None groupByCategory_def categoryKey_def
        categoryScores_def average_def round64_binades rne_def Let_def)
  have o1: "overall (weightedReputation None
        [att ''a'' ''x'' ?d1, att ''a'' ''y'' ?d2, att ''a'' ''z'' ?d3])
     = Finite (7205759403792795 / 36028797018963968)"
    by (simp add: overall_wr c1 overallOf_def Let_def round64_binades rne_def)
  have o2: "overall (weightedReputation None
        [att ''a'' ''z'' ?d3, att ''a'' ''y'' ?d2, att ''a'' ''x'' ?d1])
     = Finite (7205759403792793 / 36028797018963968)"
    by (simp add: overall_wr c2 overallOf_def Let_def round64_binades rne_def)
  from o1 o2 show ?thesis by simp
qed

text \<open>
  C8. The method is a function of the fetched attestations and the filter, and keeps no
  state: it hands the SDK object back as it was, a second call on the same input
  returns the same result, the result is the report of the fetched list, and two calls
  whose fetches yield the same list return the same result, whatever the SDK objects
  and agents.
\<close>

theorem getWeightedReputation_pure:
  "snd (getWeightedReputation agentId query sdk) = sdk
   \<and> fst (getWeightedReputation agentId query (snd (getWeightedReputation agentId query sdk)))
       = fst (getWeightedReputation agentId query sdk)
   \<and> (fetchAttestations sdk agentId = Inr attestations \<longrightarrow>
        fst (getWeightedReputation agentId query sdk) = Inr (weightedReputation query attestations))
   \<and> (fetchAttestations sdk agentId = fetchAttestations sdk' agentId' \<longrightarrow>
        fst (getWeightedReputation agentId query sdk) = fst (getWeightedReputation agentId' query sdk'))"
proof -
  have same: "fetchAttestations sdk agentId = fetchAttestations sdk' agentId' \<Longrightarrow>
      fst (getWeightedReputation agentId query sdk) = fst (getWeightedReputation agentId' query sdk')"
    by (simp add: getWeightedReputation_def split: sum.splits)
  show ?thesis
    using same by (simp add: snd_gwr fetch_gwr)
qed

theorem getWeightedReputation_pure_witness:
  "fetchAttestations
     \<lparr> trustGraph = \<lparr> contractGetAttestations = (\<lambda>agent. Inr [''1'']),
                      contractGetAttestation = (\<lambda>ident. Inr (att ''a'' ''x'' (Finite 80))) \<rparr> \<rparr> 1
     = Inr [att ''a'' ''x'' (Finite 80)]
   \<and> fetchAttestations
     \<lparr> trustGraph = \<lparr> contractGetAttestations = (\<lambda>agent. Inr [''1'']),
                      contractGetAttestation = (\<lambda>ident. Inr (att ''a'' ''x'' (Finite 80))) \<rparr> \<rparr> 1
     = fetchAttestations
     \<lparr> trustGraph = \<lparr> contractGetAttestations = (\<lambda>agent. Inr [''2'']),
                      contractGetAttestation = (\<lambda>ident. Inr (att ''a'' ''x'' (Finite 80))) \<rparr> \<rparr> 2
   \<and> fst (getWeightedReputation 1 None
         \<lparr> trustGraph = \<lparr> contractGetAttestations = (\<lambda>agent. Inr [''1'']),
                          contractGetAttestation = (\<lambda>ident. Inr (att ''a'' ''x'' (Finite 80))) \<rparr> \<rparr>)
     = Inr (weightedReputation None [att ''a'' ''x'' (Finite 80)])
   \<and> fst (getWeightedReputation 1 None
         \<lparr> trustGraph = \<lparr> contractGetAttestations = (\<lambda>agent. Inr [''1'']),
                          contractGetAttestation = (\<lambda>ident. Inr (att ''a'' ''x'' (Finite 80))) \<rparr> \<rparr>)
     = fst (getWeightedReputation 2 None
         \<lparr> trustGraph = \<lparr> contractGetAttestations = (\<lambda>agent. Inr [''2'']),
                          contractGetAttestation = (\<lambda>ident. Inr (att ''a'' ''x'' (Finite 80))) \<rparr> \<rparr>)"
proof -
  let ?s1 = "\<lparr> trustGraph = \<lparr> contractGetAttestations = (\<lambda>agent. Inr [''1'']),
                      contractGetAttestation = (\<lambda>ident. Inr (att ''a'' ''x'' (Finite 80))) \<rparr> \<rparr>"
  let ?s2 = "\<lparr> trustGraph = \<lparr> contractGetAttestations = (\<lambda>agent. Inr [''2'']),
                      contractGetAttestation = (\<lambda>ident. Inr (att ''a'' ''x'' (Finite 80))) \<rparr> \<rparr>"
  have f1: "fetchAttestations ?s1 1 = Inr [att ''a'' ''x'' (Finite 80)]"
    by (simp add: fetchAttestations_def getAttestations_def getAttestation_def)
  have f2: "fetchAttestations ?s2 2 = Inr [att ''a'' ''x'' (Finite 80)]"
    by (simp add: fetchAttestations_def getAttestations_def getAttestation_def)
  have same: "fetchAttestations ?s1 1 = fetchAttestations ?s2 2"
    by (simp only: f1 f2)
  note pure = getWeightedReputation_pure [where sdk = ?s1 and sdk' = ?s2 and agentId = 1
        and agentId' = 2 and query = None and attestations = "[att ''a'' ''x'' (Finite 80)]"]
  from pure f1 have report:
    "fst (getWeightedReputation 1 None ?s1) = Inr (weightedReputation None [att ''a'' ''x'' (Finite 80)])"
    by (elim conjE) (erule mp)
  from pure same have agree:
    "fst (getWeightedReputation 1 None ?s1) = fst (getWeightedReputation 2 None ?s2)"
    by (elim conjE) (erule mp)
  from f1 same report agree show ?thesis
    by (intro conjI)
qed



text \<open>
  C10. Let every score lie in \<open>[lo, hi]\<close>, and let the multiples \<open>j * lo\<close> and \<open>j * hi\<close>,
  for \<open>j\<close> up to the number of attestations, be binary64 values. Then every entry of
  \<open>byCategory\<close> lies in \<open>[lo, hi]\<close>, and so does \<open>overall\<close> when there is a group. Integer
  bounds \<open>l\<close> and \<open>h\<close> with the number of attestations times \<open>max \<bar>l\<bar> \<bar>h\<bar>\<close> within
  \<open>2 ^ 53\<close> are such bounds. For other bounds a rounded mean can leave the interval.
\<close>

theorem score_range_preserved:
  "((\<forall>a\<in>set attestations. le64 (Finite lo) (score a) \<and> le64 (score a) (Finite hi))
      \<and> (\<forall>j\<le>length attestations. representable (real j * lo) \<and> representable (real j * hi))
     \<longrightarrow>
      (\<forall>v\<in>set (map snd (byCategory (weightedReputation query attestations))).
          le64 (Finite lo) v \<and> le64 v (Finite hi))
      \<and> (byCategory (weightedReputation query attestations) \<noteq> [] \<longrightarrow>
           le64 (Finite lo) (overall (weightedReputation query attestations))
           \<and> le64 (overall (weightedReputation query attestations)) (Finite hi)))
   \<and> ((\<forall>a\<in>set attestations.
          le64 (Finite (of_int l)) (score a) \<and> le64 (score a) (Finite (of_int h)))
      \<and> int (length attestations) * max \<bar>l\<bar> \<bar>h\<bar> \<le> 2 ^ 53
     \<longrightarrow>
      (\<forall>v\<in>set (map snd (byCategory (weightedReputation query attestations))).
          le64 (Finite (of_int l)) v \<and> le64 v (Finite (of_int h)))
      \<and> (byCategory (weightedReputation query attestations) \<noteq> [] \<longrightarrow>
           le64 (Finite (of_int l)) (overall (weightedReputation query attestations))
           \<and> le64 (overall (weightedReputation query attestations)) (Finite (of_int h))))"
proof -
  let ?cs = "byCategory (weightedReputation query attestations)"
  have general: "(\<forall>v\<in>set (map snd ?cs). le64 (Finite x) v \<and> le64 v (Finite y))
      \<and> (?cs \<noteq> [] \<longrightarrow>
           le64 (Finite x) (overall (weightedReputation query attestations))
           \<and> le64 (overall (weightedReputation query attestations)) (Finite y))"
    if b: "\<forall>a\<in>set attestations. le64 (Finite x) (score a) \<and> le64 (score a) (Finite y)"
      and r: "\<forall>j\<le>length attestations. representable (real j * x) \<and> representable (real j * y)"
    for x y
  proof -
    have e: "\<forall>v\<in>set (map snd ?cs). le64 (Finite x) v \<and> le64 v (Finite y)"
      using entries_bounds [OF b r] by blast
    have r': "\<forall>j\<le>length ?cs. representable (real j * x) \<and> representable (real j * y)"
      using r length_byCategory [of query attestations] by (meson order_trans)
    have "le64 (Finite x) (overall (weightedReputation query attestations))
           \<and> le64 (overall (weightedReputation query attestations)) (Finite y)"
      if "?cs \<noteq> []"
      using overall_bounds [OF that e r'] .
    with e show ?thesis by blast
  qed
  have integers: "\<forall>j\<le>length attestations.
        representable (real j * of_int l) \<and> representable (real j * of_int h)"
    if "int (length attestations) * max \<bar>l\<bar> \<bar>h\<bar> \<le> 2 ^ 53"
  proof -
    have "int (length attestations) * \<bar>l\<bar> \<le> int (length attestations) * max \<bar>l\<bar> \<bar>h\<bar>"
      "int (length attestations) * \<bar>h\<bar> \<le> int (length attestations) * max \<bar>l\<bar> \<bar>h\<bar>"
      by (simp_all add: mult_left_mono)
    with that have "int (length attestations) * \<bar>l\<bar> \<le> 2 ^ 53"
      "int (length attestations) * \<bar>h\<bar> \<le> 2 ^ 53"
      by linarith+
    from representable_multiples [OF this(1)] representable_multiples [OF this(2)]
    show ?thesis by blast
  qed
  show ?thesis
    using general [of lo hi] general [of "of_int l" "of_int h"] integers by blast
qed

theorem score_range_preserved_witness:
  "le64 (Finite 0) (Finite 80) \<and> le64 (Finite 80) (Finite 100)
   \<and> le64 (Finite 0) (Finite 100) \<and> le64 (Finite 100) (Finite 100)
   \<and> le64 (Finite 0) (Finite 50) \<and> le64 (Finite 50) (Finite 100)
   \<and> int (length exampleAttestations) * max \<bar>0\<bar> \<bar>100\<bar> \<le> 2 ^ 53
   \<and> representable 0 \<and> representable 100 \<and> representable 200 \<and> representable 300
   \<and> byCategory (weightedReputation None exampleAttestations)
       = [(''a:x'', Finite 90), (''a:y'', Finite 50)]
   \<and> le64 (Finite 0) (Finite 90) \<and> le64 (Finite 90) (Finite 100)
   \<and> le64 (Finite 0) (overall (weightedReputation None exampleAttestations))
   \<and> le64 (overall (weightedReputation None exampleAttestations)) (Finite 100)"
proof -
  have h1: "\<forall>a\<in>set exampleAttestations.
      le64 (Finite (of_int 0)) (score a) \<and> le64 (score a) (Finite (of_int 100))"
    by simp
  have h2: "int (length exampleAttestations) * max \<bar>0\<bar> \<bar>100\<bar> \<le> 2 ^ 53"
    by simp
  have h3: "\<forall>j\<le>length exampleAttestations.
      representable (real j * of_int 0) \<and> representable (real j * of_int 100)"
  proof -
    have len: "length exampleAttestations = 3" by simp
    show ?thesis
      unfolding len using representable_multiples [of 3 100]
      by (simp add: representable_zero)
  qed
  have ne: "byCategory (weightedReputation None exampleAttestations) \<noteq> []"
    by (simp add: example_report)
  note inst = score_range_preserved [where attestations = exampleAttestations and query = None
      and lo = "of_int 0" and hi = "of_int 100" and l = 0 and h = 100]
  from inst [THEN conjunct1, THEN mp, OF conjI [OF h1 h3]]
  have g: "(\<forall>v\<in>set (map snd (byCategory (weightedReputation None exampleAttestations))).
          le64 (Finite (of_int 0)) v \<and> le64 v (Finite (of_int 100)))
      \<and> (byCategory (weightedReputation None exampleAttestations) \<noteq> [] \<longrightarrow>
           le64 (Finite (of_int 0)) (overall (weightedReputation None exampleAttestations))
           \<and> le64 (overall (weightedReputation None exampleAttestations)) (Finite (of_int 100)))" .
  from inst [THEN conjunct2, THEN mp, OF conjI [OF h1 h2]]
  have i: "(\<forall>v\<in>set (map snd (byCategory (weightedReputation None exampleAttestations))).
          le64 (Finite (of_int 0)) v \<and> le64 v (Finite (of_int 100)))
      \<and> (byCategory (weightedReputation None exampleAttestations) \<noteq> [] \<longrightarrow>
           le64 (Finite (of_int 0)) (overall (weightedReputation None exampleAttestations))
           \<and> le64 (overall (weightedReputation None exampleAttestations)) (Finite (of_int 100)))" .
  have reps: "representable 0 \<and> representable 100 \<and> representable 200 \<and> representable 300"
    using representable_of_int [of 0] representable_of_int [of 100]
      representable_of_int [of 200] representable_of_int [of 300]
    by simp
  from g i ne have "le64 (Finite 0) (overall (weightedReputation None exampleAttestations))
      \<and> le64 (overall (weightedReputation None exampleAttestations)) (Finite 100)"
    by simp
  with reps show ?thesis by (simp add: example_report)
qed

text \<open>
  Three attestations of one category with the score 0.1 (the binary64 value nearest to
  1/10), so that every score lies in the interval from that value to itself: the entry
  and \<open>overall\<close> are 0.10000000000000002, above it.
\<close>

theorem range_left_counterexample:
  "le64 (Finite (3602879701896397 / 36028797018963968)) (Finite (3602879701896397 / 36028797018963968))
   \<and> byCategory (weightedReputation None
       [att ''a'' ''x'' (Finite (3602879701896397 / 36028797018963968)),
        att ''a'' ''x'' (Finite (3602879701896397 / 36028797018963968)),
        att ''a'' ''x'' (Finite (3602879701896397 / 36028797018963968))])
     = [(''a:x'', Finite (7205759403792795 / 72057594037927936))]
   \<and> overall (weightedReputation None
       [att ''a'' ''x'' (Finite (3602879701896397 / 36028797018963968)),
        att ''a'' ''x'' (Finite (3602879701896397 / 36028797018963968)),
        att ''a'' ''x'' (Finite (3602879701896397 / 36028797018963968))])
     = Finite (7205759403792795 / 72057594037927936)
   \<and> \<not> le64 (Finite (7205759403792795 / 72057594037927936))
            (Finite (3602879701896397 / 36028797018963968))"
proof -
  let ?d = "Finite (3602879701896397 / 36028797018963968)"
  let ?ex = "[att ''a'' ''x'' ?d, att ''a'' ''x'' ?d, att ''a'' ''x'' ?d]"
  have cats: "byCategory (weightedReputation None ?ex)
     = [(''a:x'', Finite (7205759403792795 / 72057594037927936))]"
    by (simp add: byCategory_wr filterAttestations_None groupByCategory_def categoryKey_def
        categoryScores_def average_def round64_binades rne_def Let_def)
  have ov: "overall (weightedReputation None ?ex) = Finite (7205759403792795 / 72057594037927936)"
    by (simp add: overall_wr cats overallOf_def Let_def round64_binades rne_def)
  from cats ov show ?thesis by simp
qed

end
